theory Spec2Isabelle
  imports Complex_Main "HOL-Library.Word" "HOL-Library.Multiset" "HOL-Library.Char_ord"
    "HOL-Library.List_Lexorder" "HOL-Library.Product_Lexorder"
begin

section \<open>The JavaScript \<open>Date\<close> values the engine computes with\<close>

text \<open>
  The recurrence and reminder code works on JavaScript \<open>Date\<close> objects through their
  local-time accessors (\<open>getFullYear\<close>, \<open>getMonth\<close>, \<open>getDate\<close>, \<open>setDate\<close>, \<dots>) and
  through \<open>getTime\<close>. A \<open>Date\<close> is modelled by its local fields in the host's time zone:
  the year, the month counted from 0 as \<open>getMonth\<close> does, the day of the month and the
  milliseconds since local midnight. The host zone is taken to have a fixed offset from
  UTC (no daylight saving); \<open>Invalid Date\<close> is \<open>None\<close> of \<open>Date option\<close>. The calendar
  functions below compute on the fields and do not follow ECMAScript beyond the range of
  time values (8.64e15 milliseconds either side of 1970, the years -271821 to 275760),
  where a \<open>Date\<close> becomes invalid; \<open>TimeClip\<close> below is that limit, applied where the
  code builds a \<open>Date\<close> from a number.
\<close>

record Date =
  fullYear :: int
  month :: int
  date :: int
  msOfDay :: int

definition msPerDay :: int where
  "msPerDay = 86400000"

definition isLeapYear :: "int \<Rightarrow> bool" where
  "isLeapYear y \<longleftrightarrow> (y mod 4 = 0 \<and> y mod 100 \<noteq> 0) \<or> y mod 400 = 0"

definition daysInMonth :: "int \<Rightarrow> int \<Rightarrow> int" where
  "daysInMonth y m =
     (if m = 1 then (if isLeapYear y then 29 else 28)
      else if m = 3 \<or> m = 5 \<or> m = 8 \<or> m = 10 then 30
      else 31)"

definition validDate :: "Date \<Rightarrow> bool" where
  "validDate d \<longleftrightarrow>
     0 \<le> month d \<and> month d < 12 \<and>
     1 \<le> date d \<and> date d \<le> daysInMonth (fullYear d) (month d) \<and>
     0 \<le> msOfDay d \<and> msOfDay d < msPerDay"

text \<open>
  ECMAScript's \<open>MakeDay(year, month, date)\<close> takes the first day of the month
  \<open>year + month div 12\<close>, \<open>month mod 12\<close> and moves \<open>date - 1\<close> days from there, so that
  month 12 is January of the next year and day 0 is the last day of the month before.
  Moving by days is one calendar day at a time.
\<close>

fun nextDay :: "int \<times> int \<times> int \<Rightarrow> int \<times> int \<times> int" where
  "nextDay (y, m, d) =
     (if d < daysInMonth y m then (y, m, d + 1)
      else if m < 11 then (y, m + 1, 1)
      else (y + 1, 0, 1))"

fun prevDay :: "int \<times> int \<times> int \<Rightarrow> int \<times> int \<times> int" where
  "prevDay (y, m, d) =
     (if 1 < d then (y, m, d - 1)
      else if 0 < m then (y, m - 1, daysInMonth y (m - 1))
      else (y - 1, 11, 31))"

definition plusDays :: "int \<Rightarrow> int \<times> int \<times> int \<Rightarrow> int \<times> int \<times> int" where
  "plusDays n c = (if 0 \<le> n then (nextDay ^^ nat n) c else (prevDay ^^ nat (- n)) c)"

definition MakeDay :: "int \<Rightarrow> int \<Rightarrow> int \<Rightarrow> int \<times> int \<times> int" where
  "MakeDay y m dt = plusDays (dt - 1) (y + m div 12, m mod 12, 1)"

definition withDay :: "Date \<Rightarrow> int \<times> int \<times> int \<Rightarrow> Date" where
  "withDay d c = (case c of (y, m, dt) \<Rightarrow> d\<lparr>fullYear := y, month := m, date := dt\<rparr>)"

definition setDate :: "Date \<Rightarrow> int \<Rightarrow> Date" where
  "setDate d dt = withDay d (MakeDay (fullYear d) (month d) dt)"

definition setMonth :: "Date \<Rightarrow> int \<Rightarrow> int \<Rightarrow> Date" where
  "setMonth d m dt = withDay d (MakeDay (fullYear d) m dt)"

definition setFullYear :: "Date \<Rightarrow> int \<Rightarrow> int \<Rightarrow> int \<Rightarrow> Date" where
  "setFullYear d y m dt = withDay d (MakeDay y m dt)"

text \<open>
  \<open>getTime\<close>: the days since 1970-01-01 of the local calendar day, in milliseconds, plus
  the time of day, minus the host's offset from UTC (in minutes east of Greenwich).
\<close>

definition daysFromCivil :: "int \<Rightarrow> int \<Rightarrow> int \<Rightarrow> int" where
  "daysFromCivil y m d =
     (let y' = (if m \<le> 1 then y - 1 else y);
          era = y' div 400;
          yoe = y' mod 400;
          mp = (m + 10) mod 12;
          doy = (153 * mp + 2) div 5 + d - 1;
          doe = yoe * 365 + yoe div 4 - yoe div 100 + doy
      in era * 146097 + doe - 719468)"

definition getTime :: "int \<Rightarrow> Date \<Rightarrow> int" where
  "getTime host d =
     daysFromCivil (fullYear d) (month d) (date d) * msPerDay + msOfDay d - host * 60000"

text \<open>
  \<open>new Date(value)\<close> of a number: ECMAScript's \<open>TimeClip\<close> gives \<open>NaN\<close>, an
  \<open>Invalid Date\<close>, to a value beyond 8.64e15 in magnitude, and drops the fraction of
  any other.
\<close>

definition maxTime :: int where
  "maxTime = 8640000000000000"

definition TimeClip :: "real \<Rightarrow> int option" where
  "TimeClip t =
     (if \<bar>t\<bar> \<le> real_of_int maxTime then Some (if 0 \<le> t then \<lfloor>t\<rfloor> else \<lceil>t\<rceil>) else None)"

subsection \<open>The functions of date-fns and date-fns-tz the code calls\<close>

text \<open>
  \<open>addDays\<close> is \<open>setDate(getDate() + amount)\<close>; \<open>addWeeks\<close> adds seven days per week;
  \<open>addMonths\<close> goes to the last day of the wanted month (\<open>setMonth(getMonth() + amount + 1, 0)\<close>)
  and stays there when the day of the month does not exist in it; \<open>addYears\<close> adds twelve
  months per year.
\<close>

definition addDays :: "Date \<Rightarrow> int \<Rightarrow> Date" where
  "addDays d amount = (if amount = 0 then d else setDate d (date d + amount))"

definition addWeeks :: "Date \<Rightarrow> int \<Rightarrow> Date" where
  "addWeeks d amount = addDays d (amount * 7)"

definition addMonths :: "Date \<Rightarrow> int \<Rightarrow> Date" where
  "addMonths d amount =
     (if amount = 0 then d
      else
        let dayOfMonth = date d;
            endOfDesiredMonth = setMonth d (month d + amount + 1) 0;
            daysInMonth = date endOfDesiredMonth
        in if dayOfMonth \<ge> daysInMonth then endOfDesiredMonth
           else setFullYear d (fullYear endOfDesiredMonth) (month endOfDesiredMonth) dayOfMonth)"

definition addYears :: "Date \<Rightarrow> int \<Rightarrow> Date" where
  "addYears d amount = addMonths d (amount * 12)"

text \<open>
  \<open>toZonedTime(d, 'Asia/Singapore')\<close> returns the \<open>Date\<close> whose local fields show the
  Singapore wall clock of the instant \<open>d\<close>. On a host \<open>host\<close> minutes east of UTC
  the local fields of \<open>d\<close> show the instant's wall clock at that offset, so the result's
  fields are those of \<open>d\<close> moved by \<open>480 - host\<close> minutes. Singapore has kept UTC+8
  since 1 January 1982 (UTC+7:30 and other offsets before); the definition is the
  function for instants from 1982 on, and the general properties below that depend on
  the offset are stated for such dates.
\<close>

definition SINGAPORE_OFFSET :: int where
  "SINGAPORE_OFFSET = 480"

definition addMilliseconds :: "Date \<Rightarrow> int \<Rightarrow> Date" where
  "addMilliseconds d ms =
     (let t = msOfDay d + ms
      in (withDay d (plusDays (t div msPerDay) (fullYear d, month d, date d)))
           \<lparr>msOfDay := t mod msPerDay\<rparr>)"

definition toZonedTime :: "int \<Rightarrow> Date \<Rightarrow> Date" where
  "toZonedTime host d = addMilliseconds d ((SINGAPORE_OFFSET - host) * 60000)"

subsection \<open>Timestamps as strings\<close>

text \<open>
  Due dates travel as strings. The browser's \<open>datetime-local\<close> input sends
  \<open>YYYY-MM-DDTHH:mm\<close>, and the server writes \<open>yyyy-MM-dd HH:mm:ss\<close>. \<open>new Date(s)\<close> reads
  both as local time. \<open>parseDate\<close> reads these forms: a day of the calendar and a time
  of day, with or without seconds, separated by \<open>T\<close> (the date-time form of ECMAScript,
  any four-digit year) or by a blank (the form the server writes, read by the engine's
  own parser, which takes a year below 100 for a year of the twentieth century: the
  form is read here from the year 1000 on). What \<open>new Date\<close> makes of every other
  string (a date alone, a time with milliseconds or with a zone, a day that its month
  does not have, which rolls over, free text, \<dots>) is left to the engine: it is the
  parameter \<open>engine\<close> of \<open>newDate\<close>, and of every function that calls \<open>new Date\<close> on a
  string. The empty string is an \<open>Invalid Date\<close> in every engine.
\<close>

definition digitVal :: "char \<Rightarrow> int option" where
  "digitVal c =
     (let n = of_char c :: nat in if 48 \<le> n \<and> n \<le> 57 then Some (int n - 48) else None)"

fun number :: "string \<Rightarrow> int option" where
  "number [] = None"
| "number cs =
     foldl (\<lambda>acc c. case (acc, digitVal c) of (Some a, Some v) \<Rightarrow> Some (a * 10 + v) | _ \<Rightarrow> None)
       (Some 0) cs"

definition parseDate :: "string \<Rightarrow> Date option" where
  "parseDate s =
     (if (length s = 16 \<or> (length s = 19 \<and> s ! 16 = CHR '':''))
         \<and> s ! 4 = CHR ''-'' \<and> s ! 7 = CHR ''-''
         \<and> (s ! 10 = CHR ''T'' \<or> s ! 10 = CHR '' '') \<and> s ! 13 = CHR '':''
      then
        (case (number (take 4 s), number (take 2 (drop 5 s)), number (take 2 (drop 8 s)),
               number (take 2 (drop 11 s)), number (take 2 (drop 14 s)),
               if length s = 16 then Some 0 else number (take 2 (drop 17 s))) of
           (Some y, Some mo, Some dt, Some h, Some mi, Some sec) \<Rightarrow>
             (let d = \<lparr>fullYear = y, month = mo - 1, date = dt,
                       msOfDay = h * 3600000 + mi * 60000 + sec * 1000\<rparr>
              in if validDate d \<and> h < 24 \<and> mi < 60 \<and> sec < 60
                    \<and> (s ! 10 = CHR ''T'' \<or> 1000 \<le> y)
                 then Some d else None)
         | _ \<Rightarrow> None)
      else None)"

definition newDate :: "(string \<Rightarrow> Date option) \<Rightarrow> string \<Rightarrow> Date option" where
  "newDate engine s =
     (case parseDate s of
        Some d \<Rightarrow> Some d
      | None \<Rightarrow> if s = [] then None else engine s)"

text \<open>
  \<open>format(d, 'yyyy-MM-dd HH:mm:ss')\<close> prints the local fields, each with leading zeros to
  its width; the milliseconds are not printed. date-fns prints the year of a date before
  year 1 as \<open>1 - year\<close>.
\<close>

definition digitChar :: "int \<Rightarrow> char" where
  "digitChar n = char_of (nat (n + 48))"

function digits :: "int \<Rightarrow> string" where
  "digits n = (if n < 10 then [digitChar n] else digits (n div 10) @ [digitChar (n mod 10)])"
  by pat_completeness auto
termination
  by (relation "measure nat") auto

declare digits.simps [simp del]

definition addLeadingZeros :: "int \<Rightarrow> nat \<Rightarrow> string" where
  "addLeadingZeros n targetLength =
     (let s = digits n in replicate (targetLength - length s) (CHR ''0'') @ s)"

definition format :: "Date \<Rightarrow> string" where
  "format d =
     (let y = (if 0 < fullYear d then fullYear d else 1 - fullYear d);
          t = msOfDay d
      in addLeadingZeros y 4 @ ''-'' @ addLeadingZeros (month d + 1) 2 @ ''-''
         @ addLeadingZeros (date d) 2 @ '' ''
         @ addLeadingZeros (t div 3600000) 2 @ '':''
         @ addLeadingZeros (t div 60000 mod 60) 2 @ '':''
         @ addLeadingZeros (t div 1000 mod 60) 2)"

section \<open>The recurrence calculator\<close>

text \<open>
  \<open>calculateNextDueDate\<close> and \<open>calculateNextOccurrences\<close> of \<open>lib/recurrence\<close>. The
  pattern is the value the function receives at run time: a string or \<open>null\<close>
  (\<open>None\<close>). A thrown exception is the left injection of the result: the
  \<open>Error\<close> of the \<open>default\<close> branch, or the \<open>RangeError\<close> with which \<open>format\<close>
  refuses an \<open>Invalid Date\<close> (the date functions before it hand an \<open>Invalid Date\<close> on).
  The \<open>for\<close> loop of \<open>calculateNextOccurrences\<close> runs while \<open>i < count - 1\<close> from
  \<open>i = 0\<close>, that is \<open>count - 1\<close> times, and not at all for a count below 2. Neither
  function reads or writes anything but its arguments and the time zone of the host.
  \<open>BindError\<close> and \<open>SqliteError\<close> are the exceptions of the store, further down.
\<close>

datatype error =
  RangeError
| Error string
| BindError
| SqliteError

definition formatZoned :: "int \<Rightarrow> Date option \<Rightarrow> error + string" where
  "formatZoned host next =
     (case next of
        None \<Rightarrow> Inl RangeError
      | Some n \<Rightarrow> Inr (format (toZonedTime host n)))"

definition calculateNextDueDate ::
  "(string \<Rightarrow> Date option) \<Rightarrow> int \<Rightarrow> string \<Rightarrow> string option \<Rightarrow> error + string" where
  "calculateNextDueDate engine host currentDueDate pattern =
     (let current = map_option (toZonedTime host) (newDate engine currentDueDate)
      in if pattern = Some ''daily'' then
           formatZoned host (map_option (\<lambda>c. addDays c 1) current)
         else if pattern = Some ''weekly'' then
           formatZoned host (map_option (\<lambda>c. addWeeks c 1) current)
         else if pattern = Some ''monthly'' then
           formatZoned host (map_option (\<lambda>c. addMonths c 1) current)
         else if pattern = Some ''yearly'' then
           formatZoned host (map_option (\<lambda>c. addYears c 1) current)
         else
           Inl (Error (''Invalid recurrence pattern: ''
                  @ (case pattern of None \<Rightarrow> ''null'' | Some p \<Rightarrow> p))))"

fun occurrencesLoop ::
  "(string \<Rightarrow> Date option) \<Rightarrow> int \<Rightarrow> string option \<Rightarrow> nat \<Rightarrow> string \<Rightarrow> string list
     \<Rightarrow> error + string list" where
  "occurrencesLoop engine host pattern 0 current occurrences = Inr occurrences"
| "occurrencesLoop engine host pattern (Suc k) current occurrences =
     (case calculateNextDueDate engine host current pattern of
        Inl e \<Rightarrow> Inl e
      | Inr next \<Rightarrow> occurrencesLoop engine host pattern k next (occurrences @ [next]))"

definition calculateNextOccurrences ::
  "(string \<Rightarrow> Date option) \<Rightarrow> int \<Rightarrow> string \<Rightarrow> string option \<Rightarrow> int \<Rightarrow> error + string list" where
  "calculateNextOccurrences engine host startDate pattern cnt =
     occurrencesLoop engine host pattern (nat (cnt - 1)) startDate [startDate]"

section \<open>The rows of the store\<close>

text \<open>
  The interfaces \<open>Todo\<close> and \<open>Subtask\<close> of \<open>lib/db\<close>, with what the columns hold. A
  title is any JavaScript string, the list of its UTF-16 code units (\<open>jsstring\<close>;
  \<open>ascii\<close> writes one from ASCII characters); the strings that the code only compares,
  parses or prints (dates, patterns, messages) are written with Isabelle's characters.
  \<open>completed\<close> is a number, 0 for a pending todo. A nullable column is an \<open>option\<close>.
  \<open>reminder_minutes\<close> is a JavaScript number: the column is declared \<open>INTEGER\<close> in a
  table that is not \<open>STRICT\<close>, and keeps a number with a fraction as it is.
  \<open>recurrence_pattern\<close> is the text the column holds (the import route stores it
  unchecked). The field \<open>id\<close> is written \<open>ident\<close>; the fields of a subtask carry the
  prefix \<open>sub_\<close>.
\<close>

type_synonym jsstring = "16 word list"

definition ascii :: "string \<Rightarrow> jsstring" where
  "ascii s = map of_char s"

datatype Priority = High | Medium | Low

record Todo =
  ident :: int
  user_id :: int
  title :: jsstring
  due_date :: string
  priority :: Priority
  completed :: int
  completed_at :: "string option"
  recurrence_pattern :: "string option"
  reminder_minutes :: "real option"
  last_notification_sent :: "string option"
  created_at :: string

record Subtask =
  sub_ident :: int
  sub_todo_id :: int
  sub_title :: jsstring
  sub_completed :: int
  sub_position :: int
  sub_created_at :: string

section \<open>The reminder window evaluator\<close>

text \<open>
  The \<open>filter\<close> and \<open>map\<close> callbacks of \<open>GET /api/notifications/check\<close>. \<open>now\<close> is the
  \<open>Date\<close> that \<open>getSingaporeNow()\<close> returned. A JavaScript number or string is falsy
  when it is \<open>null\<close>, \<open>0\<close> or the empty string. Dates are compared and subtracted through
  their time values; a comparison with the \<open>NaN\<close> of an \<open>Invalid Date\<close> is false.

  JavaScript computes \<open>dueTime.getTime() - (todo.reminder_minutes * 60 * 1000)\<close> in
  doubles. For a lead time that is a whole number the doubles are the exact values
  wherever the difference lies within the range of \<open>TimeClip\<close>, and where the exact
  difference lies beyond that range so does the double. For a lead time with a fraction
  the doubles round, and the value is whatever the engine computes: the parameter
  \<open>fsub\<close>, applied to the time value and the lead time. \<open>exactDifference\<close> is \<open>fsub\<close>
  without rounding; the engine agrees with it wherever the exact products and the exact
  difference are doubles, as at a lead time of 1.5. The quotient by
  60000 under \<open>Math.round\<close> is the exact one: its argument is an integer, and the
  double quotient rounds across a half only where the due date and the clock are more
  than 1.6e16 milliseconds, half a million years, apart.
\<close>

definition Math_round :: "real \<Rightarrow> int" where
  "Math_round x = \<lfloor>x + 1 / 2\<rfloor>"

definition minusLead :: "(int \<Rightarrow> real \<Rightarrow> real) \<Rightarrow> int \<Rightarrow> real \<Rightarrow> real" where
  "minusLead fsub t rm =
     (if rm = real_of_int \<lfloor>rm\<rfloor> then real_of_int t - (rm * 60 * 1000) else fsub t rm)"

definition exactDifference :: "int \<Rightarrow> real \<Rightarrow> real" where
  "exactDifference t rm = real_of_int t - (rm * 60 * 1000)"

definition reminderFilter ::
  "(int \<Rightarrow> real \<Rightarrow> real) \<Rightarrow> (string \<Rightarrow> Date option) \<Rightarrow> int \<Rightarrow> Date \<Rightarrow> Todo \<Rightarrow> bool" where
  "reminderFilter fsub engine host now todo =
     (if completed todo \<noteq> 0 then False
      else case reminder_minutes todo of
        None \<Rightarrow> False
      | Some rm \<Rightarrow>
          if rm = 0 then False
          else case newDate engine (due_date todo) of
            None \<Rightarrow> False
          | Some dueTime \<Rightarrow>
              (let reminderTime = TimeClip (minusLead fsub (getTime host dueTime) rm);
                   isInWindow =
                     (case reminderTime of
                        None \<Rightarrow> False
                      | Some rt \<Rightarrow> getTime host now \<ge> rt \<and> getTime host now < getTime host dueTime)
               in if \<not> isInWindow then False
                  else case last_notification_sent todo of
                    None \<Rightarrow> True
                  | Some sent \<Rightarrow>
                      if sent = [] then True
                      else case newDate engine sent of
                        None \<Rightarrow> True
                      | Some lastSent \<Rightarrow>
                          (let minutesSinceLastSent =
                                 real_of_int (getTime host now - getTime host lastSent)
                                   / (60 * 1000)
                           in if minutesSinceLastSent < 5 then False else True)))"

definition minutesUntilDue :: "(string \<Rightarrow> Date option) \<Rightarrow> int \<Rightarrow> Date \<Rightarrow> Todo \<Rightarrow> int option" where
  "minutesUntilDue engine host now todo =
     map_option
       (\<lambda>dueTime. Math_round (real_of_int (getTime host dueTime - getTime host now) / (60 * 1000)))
       (newDate engine (due_date todo))"

definition dueReminders ::
  "(int \<Rightarrow> real \<Rightarrow> real) \<Rightarrow> (string \<Rightarrow> Date option) \<Rightarrow> int \<Rightarrow> Date \<Rightarrow> Todo list
     \<Rightarrow> (Todo \<times> int option) list" where
  "dueReminders fsub engine host now todos =
     map (\<lambda>todo. (todo, minutesUntilDue engine host now todo))
       (filter (reminderFilter fsub engine host now) todos)"

section \<open>The store\<close>

text \<open>
  The SQLite tables \<open>todos\<close>, \<open>subtasks\<close> and \<open>todo_tags\<close> as lists of rows, in insertion
  order (fields \<open>todos_table\<close>, \<open>subtasks_table\<close>, \<open>todo_tags_table\<close>), with the
  \<open>AUTOINCREMENT\<close> counters of the two tables that have one: a new row gets the counter
  plus one. \<open>ts\<close> is the reading of \<open>CURRENT_TIMESTAMP\<close> that fills \<open>created_at\<close>. The
  tables of users and tags are not modelled. Every statement runs on its own: the code
  opens no transaction.
\<close>

record TodoTag =
  tt_todo_id :: int
  tt_tag_id :: int
  tt_created_at :: string

record DB =
  todos_table :: "Todo list"
  subtasks_table :: "Subtask list"
  todo_tags_table :: "TodoTag list"
  todos_seq :: int
  subtasks_seq :: int

text \<open>
  \<open>String.prototype.trim\<close> removes the white space and the line terminators of
  ECMAScript from both ends: tab, line feed, vertical tab, form feed, carriage return,
  space, no-break space, the other space separators of Unicode (U+1680, U+2000 to
  U+200A, U+202F, U+205F, U+3000), the line and paragraph separators and the byte order
  mark.
\<close>

definition isWhiteSpace :: "16 word \<Rightarrow> bool" where
  "isWhiteSpace c \<longleftrightarrow>
     c \<in> {0x0009, 0x000A, 0x000B, 0x000C, 0x000D, 0x0020, 0x00A0, 0x1680,
          0x2028, 0x2029, 0x202F, 0x205F, 0x3000, 0xFEFF}
     \<or> (0x2000 \<le> c \<and> c \<le> 0x200A)"

definition trim :: "jsstring \<Rightarrow> jsstring" where
  "trim s = rev (dropWhile isWhiteSpace (rev (dropWhile isWhiteSpace s)))"

text \<open>\<open>x || null\<close> on a nullable string and on a nullable number.\<close>

definition orNullString :: "string option \<Rightarrow> string option" where
  "orNullString x = (case x of None \<Rightarrow> None | Some s \<Rightarrow> if s = [] then None else Some s)"

definition orNullNumber :: "real option \<Rightarrow> real option" where
  "orNullNumber x = (case x of None \<Rightarrow> None | Some n \<Rightarrow> if n = 0 then None else Some n)"

text \<open>\<open>validateReminderMinutes\<close> of \<open>lib/db\<close>; no route calls it.\<close>

definition validateReminderMinutes :: "real option \<Rightarrow> real option" where
  "validateReminderMinutes minutes =
     (case minutes of
        None \<Rightarrow> None
      | Some m \<Rightarrow> if m \<notin> set [15, 30, 60, 120, 1440, 2880, 10080] then None else Some m)"

subsection \<open>\<open>todoDB\<close>\<close>

record TodoCreate =
  c_user_id :: int
  c_title :: jsstring
  c_due_date :: string
  c_priority :: "Priority option"
  c_recurrence_pattern :: "string option"
  c_reminder_minutes :: "real option"

definition todoDB_create :: "string \<Rightarrow> DB \<Rightarrow> TodoCreate \<Rightarrow> DB \<times> Todo" where
  "todoDB_create ts db data =
     (let row = \<lparr>ident = todos_seq db + 1,
                  user_id = c_user_id data,
                  title = trim (c_title data),
                  due_date = c_due_date data,
                  priority = (case c_priority data of None \<Rightarrow> Medium | Some p \<Rightarrow> p),
                  completed = 0,
                  completed_at = None,
                  recurrence_pattern = orNullString (c_recurrence_pattern data),
                  reminder_minutes = orNullNumber (c_reminder_minutes data),
                  last_notification_sent = None,
                  created_at = ts\<rparr>
      in (db\<lparr>todos_table := todos_table db @ [row], todos_seq := todos_seq db + 1\<rparr>, row))"

definition todoDB_findById :: "DB \<Rightarrow> int \<Rightarrow> Todo option" where
  "todoDB_findById db i = find (\<lambda>t. ident t = i) (todos_table db)"

text \<open>
  \<open>findByUser\<close> without options: the pending todos of the user, ordered by \<open>completed\<close>,
  then by priority (high, medium, low), then by due date. The subtasks and tags that the
  source attaches to each todo are left out.
\<close>

definition priorityRank :: "Priority \<Rightarrow> int" where
  "priorityRank p = (case p of High \<Rightarrow> 1 | Medium \<Rightarrow> 2 | Low \<Rightarrow> 3)"

definition todoDB_findByUser :: "DB \<Rightarrow> int \<Rightarrow> Todo list" where
  "todoDB_findByUser db userId =
     sort_key (\<lambda>t. (completed t, priorityRank (priority t), due_date t))
       (filter (\<lambda>t. user_id t = userId \<and> completed t = 0) (todos_table db))"

text \<open>
  The argument of \<open>update\<close> is a partial object: a key is absent (\<open>None\<close>) or present
  with its new value, which for a nullable column may be \<open>null\<close>. The keys \<open>due_date\<close>
  and \<open>reminder_minutes\<close> come from the request as they were sent (\<open>'a raw\<close>): \<open>null\<close>,
  a value of the type of the column, or a value that better-sqlite3 refuses to bind, a
  boolean for one. \<open>update\<close> throws for a value it cannot bind (\<open>BindError\<close>, the
  \<open>TypeError\<close> or \<open>RangeError\<close> of better-sqlite3), and SQLite refuses to set
  \<open>due_date\<close>, a column declared \<open>NOT NULL\<close>, to \<open>null\<close> in a row (\<open>SqliteError\<close>);
  in both cases no row changes.
\<close>

datatype 'a raw = Null | Value 'a | Unbindable

record TodoUpdate =
  u_title :: "jsstring option"
  u_due_date :: "string raw option"
  u_priority :: "Priority option"
  u_completed :: "int option"
  u_completed_at :: "string option option"
  u_recurrence_pattern :: "string option option"
  u_reminder_minutes :: "real raw option"
  u_last_notification_sent :: "string option option"

definition noUpdate :: TodoUpdate where
  "noUpdate =
     \<lparr>u_title = None, u_due_date = None, u_priority = None, u_completed = None,
      u_completed_at = None, u_recurrence_pattern = None, u_reminder_minutes = None,
      u_last_notification_sent = None\<rparr>"

definition orElse :: "'a option \<Rightarrow> 'a \<Rightarrow> 'a" where
  "orElse x d = (case x of None \<Rightarrow> d | Some v \<Rightarrow> v)"

definition applyUpdate :: "TodoUpdate \<Rightarrow> Todo \<Rightarrow> Todo" where
  "applyUpdate u t =
     t\<lparr>title := orElse (u_title u) (title t),
       due_date := (case u_due_date u of Some (Value s) \<Rightarrow> s | _ \<Rightarrow> due_date t),
       priority := orElse (u_priority u) (priority t),
       completed := orElse (u_completed u) (completed t),
       completed_at := orElse (u_completed_at u) (completed_at t),
       recurrence_pattern := orElse (u_recurrence_pattern u) (recurrence_pattern t),
       reminder_minutes :=
         (case u_reminder_minutes u of
            Some (Value x) \<Rightarrow> Some x | Some Null \<Rightarrow> None | _ \<Rightarrow> reminder_minutes t),
       last_notification_sent := orElse (u_last_notification_sent u) (last_notification_sent t)\<rparr>"

definition todoDB_update :: "DB \<Rightarrow> int \<Rightarrow> TodoUpdate \<Rightarrow> error + DB \<times> Todo option" where
  "todoDB_update db i u =
     (if u_due_date u = Some Unbindable \<or> u_reminder_minutes u = Some Unbindable then
        Inl BindError
      else if u_due_date u = Some Null \<and> todoDB_findById db i \<noteq> None then
        Inl SqliteError
      else
        (let db' = db\<lparr>todos_table :=
                        map (\<lambda>t. if ident t = i then applyUpdate u t else t) (todos_table db)\<rparr>
         in Inr (db', todoDB_findById db' i)))"

text \<open>The tag ids of a todo: \<open>SELECT tag_id FROM todo_tags WHERE todo_id = ?\<close>.\<close>

definition tagIdsOf :: "DB \<Rightarrow> int \<Rightarrow> int list" where
  "tagIdsOf db todoId = map tt_tag_id (filter (\<lambda>r. tt_todo_id r = todoId) (todo_tags_table db))"

subsection \<open>\<open>subtaskDB\<close>\<close>

record SubtaskCreate =
  sc_todo_id :: int
  sc_title :: jsstring
  sc_position :: int

definition subtaskDB_create :: "string \<Rightarrow> DB \<Rightarrow> SubtaskCreate \<Rightarrow> DB \<times> Subtask" where
  "subtaskDB_create ts db data =
     (let row = \<lparr>sub_ident = subtasks_seq db + 1,
                  sub_todo_id = sc_todo_id data,
                  sub_title = trim (sc_title data),
                  sub_completed = 0,
                  sub_position = sc_position data,
                  sub_created_at = ts\<rparr>
      in (db\<lparr>subtasks_table := subtasks_table db @ [row], subtasks_seq := subtasks_seq db + 1\<rparr>, row))"

definition subtaskDB_findByTodo :: "DB \<Rightarrow> int \<Rightarrow> Subtask list" where
  "subtaskDB_findByTodo db todoId =
     sort_key (\<lambda>s. (sub_position s, sub_created_at s))
       (filter (\<lambda>s. sub_todo_id s = todoId) (subtasks_table db))"

subsection \<open>\<open>todoDB.createRecurringInstance\<close>\<close>

text \<open>
  A string is truthy when it is neither \<open>null\<close> nor empty. The function throws before it
  writes, or it writes the next todo, the copies of the tag rows and the copies of the
  subtasks.
\<close>

definition truthyString :: "string option \<Rightarrow> bool" where
  "truthyString x \<longleftrightarrow> x \<noteq> None \<and> x \<noteq> Some []"

definition copyTags :: "string \<Rightarrow> DB \<Rightarrow> int \<Rightarrow> int \<Rightarrow> DB" where
  "copyTags ts db newId parentId =
     db\<lparr>todo_tags_table := todo_tags_table db
          @ map (\<lambda>r. \<lparr>tt_todo_id = newId, tt_tag_id = tt_tag_id r, tt_created_at = ts\<rparr>)
              (filter (\<lambda>r. tt_todo_id r = parentId) (todo_tags_table db))\<rparr>"

definition copySubtask :: "string \<Rightarrow> int \<Rightarrow> Subtask \<Rightarrow> DB \<Rightarrow> DB" where
  "copySubtask ts newId subtask db =
     fst (subtaskDB_create ts db
            \<lparr>sc_todo_id = newId, sc_title = sub_title subtask, sc_position = sub_position subtask\<rparr>)"

definition createRecurringInstance ::
  "(string \<Rightarrow> Date option) \<Rightarrow> int \<Rightarrow> string \<Rightarrow> DB \<Rightarrow> Todo \<Rightarrow> error + DB \<times> Todo" where
  "createRecurringInstance engine host ts db parentTodo =
     (if \<not> truthyString (recurrence_pattern parentTodo) then Inl (Error ''Todo is not recurring'')
      else case calculateNextDueDate engine host (due_date parentTodo)
                  (recurrence_pattern parentTodo) of
        Inl e \<Rightarrow> Inl e
      | Inr nextDueDate \<Rightarrow>
          (let (db1, nextTodo) =
                 todoDB_create ts db
                   \<lparr>c_user_id = user_id parentTodo,
                    c_title = title parentTodo,
                    c_due_date = nextDueDate,
                    c_priority = Some (priority parentTodo),
                    c_recurrence_pattern = recurrence_pattern parentTodo,
                    c_reminder_minutes = reminder_minutes parentTodo\<rparr>;
               db2 = copyTags ts db1 (ident nextTodo) (ident parentTodo);
               subtasks = subtaskDB_findByTodo db2 (ident parentTodo);
               db3 = fold (copySubtask ts (ident nextTodo)) subtasks db2
           in Inr (db3, nextTodo)))"

subsection \<open>The constraints of the schema\<close>

text \<open>
  What SQLite guarantees of every store and the properties below rely on: \<open>id\<close> is the
  primary key of \<open>todos\<close>, no id is above the \<open>AUTOINCREMENT\<close> counter, and the
  \<open>todo_id\<close> of a subtask or of a tag row is the id of a todo (foreign keys are on).
\<close>

definition wf_db :: "DB \<Rightarrow> bool" where
  "wf_db db \<longleftrightarrow>
     distinct (map ident (todos_table db)) \<and>
     (\<forall>t \<in> set (todos_table db). ident t \<le> todos_seq db) \<and>
     (\<forall>s \<in> set (subtasks_table db). \<exists>t \<in> set (todos_table db). ident t = sub_todo_id s) \<and>
     (\<forall>r \<in> set (todo_tags_table db). \<exists>t \<in> set (todos_table db). ident t = tt_todo_id r)"

section \<open>The Singapore clock\<close>

text \<open>
  \<open>getSingaporeNow\<close>, \<open>formatSingaporeDate\<close>, \<open>parseSingaporeDate\<close> and \<open>isPastDate\<close>
  of \<open>lib/timezone\<close>; \<open>clock\<close> is the value of \<open>new Date()\<close>.
\<close>

definition getSingaporeNow :: "int \<Rightarrow> Date \<Rightarrow> Date" where
  "getSingaporeNow host clock = toZonedTime host clock"

definition formatSingaporeDate :: "int \<Rightarrow> Date \<Rightarrow> string" where
  "formatSingaporeDate host d = format (toZonedTime host d)"

definition parseSingaporeDate :: "(string \<Rightarrow> Date option) \<Rightarrow> int \<Rightarrow> string \<Rightarrow> Date option" where
  "parseSingaporeDate engine host dateStr = map_option (toZonedTime host) (newDate engine dateStr)"

definition isPastDate :: "(string \<Rightarrow> Date option) \<Rightarrow> int \<Rightarrow> Date \<Rightarrow> string \<Rightarrow> bool" where
  "isPastDate engine host clock dateStr =
     (case parseSingaporeDate engine host dateStr of
        None \<Rightarrow> False
      | Some d \<Rightarrow> getTime host d < getTime host (getSingaporeNow host clock))"

section \<open>The route handlers\<close>

text \<open>
  A handler takes the session (the user id, or \<open>None\<close> without a session), the store
  and the request, and returns the store and the response: a status with an error
  message, or the payload. A request body is a record of its keys, each absent
  (\<open>None\<close>) or holding what the client sent: a value of the type of the interface
  (for \<open>completed\<close> a number, whatever its value), \<open>null\<close> where the handler lets it
  through, and for \<open>due_date\<close> and \<open>reminder_minutes\<close>, which \<open>PUT\<close> hands to the store
  unchecked, also a value that cannot be bound.
\<close>

datatype 'a response = Failure nat string | Success 'a

subsection \<open>\<open>PUT /api/todos/[id]\<close>\<close>

record PutBody =
  b_title :: "jsstring option"
  b_due_date :: "string raw option"
  b_priority :: "string option"
  b_recurrence_pattern :: "string option option"
  b_reminder_minutes :: "real raw option"
  b_completed :: "int option"

record PutPayload =
  resp_todo :: "Todo option"
  resp_next_todo :: "Todo option"

definition priorityOfString :: "string \<Rightarrow> Priority option" where
  "priorityOfString p =
     (if p = ''high'' then Some High else if p = ''medium'' then Some Medium
      else if p = ''low'' then Some Low else None)"

text \<open>
  The block \<open>Handle completion\<close> (lines 136 to 155): it extends \<open>updateData\<close> and, for a
  recurring todo that the request completes, calls \<open>createRecurringInstance\<close>, which
  writes to the store at once.
\<close>

definition putHandleCompletion ::
  "(string \<Rightarrow> Date option) \<Rightarrow> int \<Rightarrow> string \<Rightarrow> Date \<Rightarrow> DB \<Rightarrow> Todo \<Rightarrow> PutBody \<Rightarrow> TodoUpdate
     \<Rightarrow> error + DB \<times> TodoUpdate \<times> Todo option" where
  "putHandleCompletion engine host ts clock db todo body updateData =
     (case b_completed body of
        None \<Rightarrow> Inr (db, updateData, None)
      | Some c \<Rightarrow>
          (let isCompleting = (c = 1 \<and> completed todo = 0);
               updateData1 = updateData\<lparr>u_completed := Some c\<rparr>
           in if isCompleting then
                (let updateData2 = updateData1
                       \<lparr>u_completed_at :=
                          Some (Some (formatSingaporeDate host (getSingaporeNow host clock)))\<rparr>
                 in if truthyString (recurrence_pattern todo) then
                      (case createRecurringInstance engine host ts db todo of
                         Inl e \<Rightarrow> Inl e
                       | Inr (db', nextTodo) \<Rightarrow> Inr (db', updateData2, Some nextTodo))
                    else Inr (db, updateData2, None))
              else if c = 0 then Inr (db, updateData1\<lparr>u_completed_at := Some None\<rparr>, None)
              else Inr (db, updateData1, None)))"

text \<open>
  The checks of the body, in the order of the source, with the status and message of the
  first one that fails; and the \<open>updateData\<close> that the accepted keys make.
\<close>

definition putValidation :: "PutBody \<Rightarrow> (nat \<times> string) option" where
  "putValidation body =
     (if b_title body \<noteq> None \<and> trim (the (b_title body)) = [] then
        Some (400, ''Title must be a non-empty string'')
      else if b_title body \<noteq> None \<and> length (trim (the (b_title body))) > 500 then
        Some (400, ''Title must be 500 characters or less'')
      else if b_priority body \<noteq> None \<and> priorityOfString (the (b_priority body)) = None then
        Some (400, ''Invalid priority value'')
      else if b_recurrence_pattern body \<noteq> None \<and> the (b_recurrence_pattern body) \<noteq> None
              \<and> the (b_recurrence_pattern body)
                   \<notin> {Some ''daily'', Some ''weekly'', Some ''monthly'', Some ''yearly''} then
        Some (400, ''Invalid recurrence pattern'')
      else None)"

definition putUpdateData :: "PutBody \<Rightarrow> TodoUpdate" where
  "putUpdateData body =
     noUpdate
       \<lparr>u_title := map_option trim (b_title body),
        u_due_date := b_due_date body,
        u_priority := Option.bind (b_priority body) priorityOfString,
        u_recurrence_pattern := b_recurrence_pattern body,
        u_reminder_minutes := b_reminder_minutes body\<rparr>"

text \<open>
  The handler. The next instance is written (line 149) before the todo is updated
  (line 158); when the update throws, the \<open>catch\<close> answers 500 and the store keeps what
  was written before.
\<close>

definition PUT ::
  "(string \<Rightarrow> Date option) \<Rightarrow> int \<Rightarrow> string \<Rightarrow> Date \<Rightarrow> int option \<Rightarrow> DB \<Rightarrow> int option \<Rightarrow> PutBody
     \<Rightarrow> DB \<times> PutPayload response" where
  "PUT engine host ts clock session db idParam body =
     (case session of
        None \<Rightarrow> (db, Failure 401 ''Not authenticated'')
      | Some userId \<Rightarrow>
     (case idParam of
        None \<Rightarrow> (db, Failure 400 ''Invalid todo ID'')
      | Some todoId \<Rightarrow>
     (case todoDB_findById db todoId of
        None \<Rightarrow> (db, Failure 404 ''Todo not found'')
      | Some todo \<Rightarrow>
          if user_id todo \<noteq> userId then (db, Failure 403 ''Unauthorized'')
          else case putValidation body of
            Some (status, message) \<Rightarrow> (db, Failure status message)
          | None \<Rightarrow>
              (case putHandleCompletion engine host ts clock db todo body (putUpdateData body) of
                 Inl e \<Rightarrow> (db, Failure 500 ''Failed to update todo'')
               | Inr (db1, updateData, nextTodo) \<Rightarrow>
                   (case todoDB_update db1 todoId updateData of
                      Inl e \<Rightarrow> (db1, Failure 500 ''Failed to update todo'')
                    | Inr (db2, updatedTodo) \<Rightarrow>
                        (db2, Success \<lparr>resp_todo = updatedTodo, resp_next_todo = nextTodo\<rparr>))))))"

subsection \<open>\<open>POST /api/todos\<close>\<close>

text \<open>
  \<open>reminder_minutes\<close> is a number or absent (\<open>null\<close> counts as absent). The handler
  tests \<open>parseInt(reminder_minutes, 10)\<close> and stores \<open>reminder_minutes\<close> itself.
  \<open>parseInt\<close> reads the integer at the head of the decimal string of the number; it is
  the parameter \<open>parseInt\<close> of the handler. \<open>parseIntDecimal\<close> is its value for a number
  that JavaScript prints without an exponent, from 10^-6 up to 10^21 in magnitude: the
  number without its fraction.
\<close>

record PostBody =
  p_title :: "jsstring option"
  p_due_date :: "string option"
  p_priority :: "string option"
  p_recurrence_pattern :: "string option"
  p_reminder_minutes :: "real option"

definition parseIntDecimal :: "real \<Rightarrow> int" where
  "parseIntDecimal x = (if 0 \<le> x then \<lfloor>x\<rfloor> else \<lceil>x\<rceil>)"

definition truthyTitle :: "jsstring option \<Rightarrow> bool" where
  "truthyTitle x \<longleftrightarrow> x \<noteq> None \<and> x \<noteq> Some []"

definition POST ::
  "(real \<Rightarrow> int) \<Rightarrow> (string \<Rightarrow> Date option) \<Rightarrow> int \<Rightarrow> string \<Rightarrow> Date \<Rightarrow> int option \<Rightarrow> DB \<Rightarrow> PostBody
     \<Rightarrow> DB \<times> Todo response" where
  "POST parseInt engine host ts clock session db body =
     (case session of
        None \<Rightarrow> (db, Failure 401 ''Not authenticated'')
      | Some userId \<Rightarrow>
          if \<not> truthyTitle (p_title body) \<or> trim (the (p_title body)) = [] then
            (db, Failure 400 ''Title is required'')
          else if length (trim (the (p_title body))) > 500 then
            (db, Failure 400 ''Title must be 500 characters or less'')
          else if \<not> truthyString (p_due_date body) then
            (db, Failure 400 ''Due date is required'')
          else if isPastDate engine host clock (the (p_due_date body)) then
            (db, Failure 400 ''Due date cannot be in the past'')
          else if truthyString (p_priority body)
                  \<and> priorityOfString (the (p_priority body)) = None then
            (db, Failure 400 ''Invalid priority value'')
          else if truthyString (p_recurrence_pattern body)
                  \<and> p_recurrence_pattern body
                       \<notin> {Some ''daily'', Some ''weekly'', Some ''monthly'', Some ''yearly''} then
            (db, Failure 400 ''Invalid recurrence pattern'')
          else if p_reminder_minutes body \<noteq> None
                  \<and> parseInt (the (p_reminder_minutes body)) \<le> 0 then
            (db, Failure 400 ''Reminder minutes must be a positive number'')
          else
            (let (db', todo) =
                   todoDB_create ts db
                     \<lparr>c_user_id = userId,
                      c_title = the (p_title body),
                      c_due_date = the (p_due_date body),
                      c_priority = Option.bind (orNullString (p_priority body)) priorityOfString,
                      c_recurrence_pattern = orNullString (p_recurrence_pattern body),
                      c_reminder_minutes = orNullNumber (p_reminder_minutes body)\<rparr>
             in (db', Success todo)))"

subsection \<open>\<open>GET /api/notifications/check\<close>\<close>

text \<open>
  The handler evaluates the pending todos of the user and then writes
  \<open>formatSingaporeDate(now)\<close> into \<open>last_notification_sent\<close> of every todo it returns.
\<close>

fun markNotified :: "string \<Rightarrow> (Todo \<times> int option) list \<Rightarrow> DB \<Rightarrow> error + DB" where
  "markNotified sentAt [] db = Inr db"
| "markNotified sentAt (reminder # reminders) db =
     (case todoDB_update db (ident (fst reminder))
             (noUpdate\<lparr>u_last_notification_sent := Some (Some sentAt)\<rparr>) of
        Inl e \<Rightarrow> Inl e
      | Inr (db', updated) \<Rightarrow> markNotified sentAt reminders db')"

definition GET_check ::
  "(int \<Rightarrow> real \<Rightarrow> real) \<Rightarrow> (string \<Rightarrow> Date option) \<Rightarrow> int \<Rightarrow> Date \<Rightarrow> int option \<Rightarrow> DB
     \<Rightarrow> DB \<times> (Todo \<times> int option) list response" where
  "GET_check fsub engine host clock session db =
     (case session of
        None \<Rightarrow> (db, Failure 401 ''Not authenticated'')
      | Some userId \<Rightarrow>
          (let now = getSingaporeNow host clock;
               todos = todoDB_findByUser db userId;
               reminders = dueReminders fsub engine host now todos
           in case markNotified (formatSingaporeDate host now) reminders db of
                Inl e \<Rightarrow> (db, Failure 500 ''Failed to check notifications'')
              | Inr db' \<Rightarrow> (db', Success reminders)))"

section \<open>Notions used in the statements\<close>

text \<open>
  The row that \<open>createRecurringInstance\<close> inserts for the parent \<open>p\<close> when the next due
  date is \<open>nd\<close>: the title and the lead time have gone through \<open>todoDB.create\<close>, which
  trims the title and turns a lead time of 0 into \<open>null\<close>.
\<close>

definition nextInstance :: "string \<Rightarrow> DB \<Rightarrow> Todo \<Rightarrow> string \<Rightarrow> Todo" where
  "nextInstance ts db p nd =
     \<lparr>ident = todos_seq db + 1, user_id = user_id p, title = trim (title p), due_date = nd,
      priority = priority p, completed = 0, completed_at = None,
      recurrence_pattern = recurrence_pattern p,
      reminder_minutes = orNullNumber (reminder_minutes p),
      last_notification_sent = None, created_at = ts\<rparr>"

text \<open>A day of the calendar, and a \<open>Date\<close> without a fraction of a second.\<close>

definition validDay :: "int \<times> int \<times> int \<Rightarrow> bool" where
  "validDay c \<longleftrightarrow> (case c of (y, m, d) \<Rightarrow> 0 \<le> m \<and> m < 12 \<and> 1 \<le> d \<and> d \<le> daysInMonth y m)"

definition wholeSeconds :: "Date \<Rightarrow> bool" where
  "wholeSeconds d \<longleftrightarrow> msOfDay d mod 1000 = 0"

section \<open>Sample data\<close>

text \<open>
  A todo due on 10 February 2026 at 14:00 with a reminder one hour before, its three
  subtasks (one completed, one whose title starts with a blank, one whose title starts
  with a no-break space), its two tags, and clock readings of that day; they
  instantiate the theorems below. All their timestamps are of the forms \<open>parseDate\<close>
  reads, so that the engine's reading of other strings does not enter: \<open>noOtherForm\<close>
  is an engine that reads none.
\<close>

definition noOtherForm :: "string \<Rightarrow> Date option" where
  "noOtherForm s = None"

definition sampleTodo :: Todo where
  "sampleTodo =
     \<lparr>ident = 1, user_id = 1, title = ascii ''Team meeting'', due_date = ''2026-02-10T14:00'',
      priority = Medium, completed = 0, completed_at = None, recurrence_pattern = Some ''weekly'',
      reminder_minutes = Some 60, last_notification_sent = None,
      created_at = ''2026-02-01 09:00:00''\<rparr>"

definition sampleDB :: DB where
  "sampleDB =
     \<lparr>todos_table = [sampleTodo],
      subtasks_table =
        [\<lparr>sub_ident = 1, sub_todo_id = 1, sub_title = ascii ''Book room'', sub_completed = 1,
          sub_position = 0, sub_created_at = ''2026-02-01 09:01:00''\<rparr>,
         \<lparr>sub_ident = 2, sub_todo_id = 1, sub_title = ascii '' Send agenda'', sub_completed = 0,
          sub_position = 1, sub_created_at = ''2026-02-01 09:02:00''\<rparr>,
         \<lparr>sub_ident = 3, sub_todo_id = 1, sub_title = 0x00A0 # ascii ''Print slides'',
          sub_completed = 0, sub_position = 2, sub_created_at = ''2026-02-01 09:02:30''\<rparr>],
      todo_tags_table =
        [\<lparr>tt_todo_id = 1, tt_tag_id = 5, tt_created_at = ''2026-02-01 09:03:00''\<rparr>,
         \<lparr>tt_todo_id = 1, tt_tag_id = 7, tt_created_at = ''2026-02-01 09:04:00''\<rparr>],
      todos_seq = 1,
      subtasks_seq = 3\<rparr>"

definition noBody :: PutBody where
  "noBody =
     \<lparr>b_title = None, b_due_date = None, b_priority = None, b_recurrence_pattern = None,
      b_reminder_minutes = None, b_completed = None\<rparr>"

definition clockAt :: "int \<Rightarrow> int \<Rightarrow> Date" where
  "clockAt h mi = \<lparr>fullYear = 2026, month = 1, date = 10, msOfDay = h * 3600000 + mi * 60000\<rparr>"

section \<open>The calendar\<close>

text \<open>
  Moving by days keeps a day of the calendar valid and changes the year by at most one
  within a month's worth of steps; \<open>addMonths\<close> and \<open>addYears\<close> by one unit keep the day
  of the month or take the last day of a shorter month; \<open>toZonedTime\<close> moves a date by
  less than a day on any host between UTC-12 and UTC+14.
\<close>

lemma daysInMonth_bounds: "28 \<le> daysInMonth y m" "daysInMonth y m \<le> 31"
  by (simp_all add: daysInMonth_def)

lemma daysInMonth_Jan_Dec [simp]: "daysInMonth y 0 = 31" "daysInMonth y 11 = 31"
  by (simp_all add: daysInMonth_def)

lemma nextDay_valid: "validDay c \<Longrightarrow> validDay (nextDay c)"
  using daysInMonth_bounds
  by (cases c) (auto simp: validDay_def intro: order_trans [of 1 28])

lemma prevDay_valid: "validDay c \<Longrightarrow> validDay (prevDay c)"
  using daysInMonth_bounds
  by (cases c) (auto simp: validDay_def intro: order_trans [of 1 28])

lemma funpow_nextDay_valid: "validDay c \<Longrightarrow> validDay ((nextDay ^^ n) c)"
  by (induction n) (simp_all add: nextDay_valid)

lemma funpow_prevDay_valid: "validDay c \<Longrightarrow> validDay ((prevDay ^^ n) c)"
  by (induction n) (simp_all add: prevDay_valid)

lemma plusDays_valid: "validDay c \<Longrightarrow> validDay (plusDays n c)"
  by (simp add: plusDays_def funpow_nextDay_valid funpow_prevDay_valid)

lemma funpow_nextDay_within:
  "1 \<le> d \<Longrightarrow> d + int n \<le> daysInMonth y m \<Longrightarrow> (nextDay ^^ n) (y, m, d) = (y, m, d + int n)"
  by (induction n) simp_all

lemma funpow_nextDay_year:
  "validDay (y, m, d) \<Longrightarrow> n \<le> 30 \<Longrightarrow>
   (case (nextDay ^^ n) (y, m, d) of (y', m', d') \<Rightarrow>
      y' = y \<or> (y' = y + 1 \<and> m' = 0 \<and> d' \<le> int n))"
proof (induction n)
  case 0
  then show ?case by simp
next
  case (Suc n)
  then have IH: "case (nextDay ^^ n) (y, m, d) of (y', m', d') \<Rightarrow>
      y' = y \<or> (y' = y + 1 \<and> m' = 0 \<and> d' \<le> int n)" and n: "n \<le> 29"
    by simp_all
  obtain y' m' d' where eq: "(nextDay ^^ n) (y, m, d) = (y', m', d')"
    by (cases "(nextDay ^^ n) (y, m, d)")
  from IH n show ?case
    by (auto simp: eq)
qed


lemma validDate_validDay: "validDate d \<longleftrightarrow>
    validDay (fullYear d, month d, date d) \<and> 0 \<le> msOfDay d \<and> msOfDay d < msPerDay"
  by (auto simp: validDate_def validDay_def)

lemma withDay_fields [simp]:
  "fullYear (withDay d (y, m, dt)) = y" "month (withDay d (y, m, dt)) = m"
  "date (withDay d (y, m, dt)) = dt" "msOfDay (withDay d c) = msOfDay d"
  by (simp_all add: withDay_def split: prod.splits)

lemma validDate_withDay:
  "validDay c \<Longrightarrow> 0 \<le> msOfDay d \<Longrightarrow> msOfDay d < msPerDay \<Longrightarrow> validDate (withDay d c)"
  by (cases c) (simp add: validDate_validDay)

lemma withDay_same: "withDay d (fullYear d, month d, date d) = d"
  by (simp add: withDay_def)

lemma setDate_plus:
  assumes "validDate d"
  shows "setDate d (date d + int n) = withDay d ((nextDay ^^ n) (fullYear d, month d, date d))"
proof -
  from assms have m: "month d div 12 = 0" "month d mod 12 = month d" and d1: "1 \<le> date d"
    and dim: "date d \<le> daysInMonth (fullYear d) (month d)"
    by (simp_all add: validDate_def)
  have "nat (date d + int n - 1) = n + nat (date d - 1)"
    using d1 by simp
  then have "(nextDay ^^ nat (date d + int n - 1)) (fullYear d, month d, 1)
      = (nextDay ^^ n) ((nextDay ^^ nat (date d - 1)) (fullYear d, month d, 1))"
    by (simp add: funpow_add)
  also have "(nextDay ^^ nat (date d - 1)) (fullYear d, month d, 1) = (fullYear d, month d, date d)"
    using funpow_nextDay_within [of 1 "nat (date d - 1)" "fullYear d" "month d"] d1 dim by simp
  finally show ?thesis
    using d1 by (simp add: setDate_def MakeDay_def plusDays_def m)
qed

lemma addDays_step:
  assumes "validDate d" "n \<le> 30"
  shows "validDate (addDays d (int n)) \<and> msOfDay (addDays d (int n)) = msOfDay d
     \<and> fullYear d \<le> fullYear (addDays d (int n)) \<and> fullYear (addDays d (int n)) \<le> fullYear d + 1"
proof (cases "n = 0")
  case True
  with assms show ?thesis by (simp add: addDays_def)
next
  case False
  obtain y' m' d' where eq: "(nextDay ^^ n) (fullYear d, month d, date d) = (y', m', d')"
    by (cases "(nextDay ^^ n) (fullYear d, month d, date d)")
  from assms(1) have v: "validDay (fullYear d, month d, date d)"
    and ms: "0 \<le> msOfDay d" "msOfDay d < msPerDay"
    by (simp_all add: validDate_validDay)
  from funpow_nextDay_valid [OF v, of n] have v': "validDay (y', m', d')"
    by (simp add: eq)
  from funpow_nextDay_year [OF v assms(2)] have yr: "y' = fullYear d \<or> y' = fullYear d + 1"
    by (auto simp: eq)
  have "addDays d (int n) = withDay d (y', m', d')"
    using False by (simp add: addDays_def setDate_plus [OF assms(1)] eq)
  with v' ms yr show ?thesis
    by (auto simp: validDate_withDay)
qed

lemma addWeeks_eq: "addWeeks d 1 = addDays d (int 7)"
  by (simp add: addWeeks_def)

lemma addDays_1_eq: "addDays d 1 = addDays d (int 1)"
  by simp

lemma MakeDay_zero: "MakeDay y mm 0 = prevDay (y + mm div 12, mm mod 12, 1)"
  by (simp add: MakeDay_def plusDays_def)

lemma MakeDay_within:
  "0 \<le> m \<Longrightarrow> m < 12 \<Longrightarrow> 1 \<le> dt \<Longrightarrow> dt \<le> daysInMonth y m \<Longrightarrow> MakeDay y m dt = (y, m, dt)"
  using funpow_nextDay_within [of 1 "nat (dt - 1)" y m]
  by (simp add: MakeDay_def plusDays_def)

lemma addMonths_general:
  assumes "amount \<noteq> 0"
    and "MakeDay (fullYear d) (month d + amount + 1) 0 = (y', m', daysInMonth y' m')"
    and "0 \<le> m'" "m' < 12" "1 \<le> date d"
  shows "addMonths d amount = withDay d (y', m', min (date d) (daysInMonth y' m'))"
proof (cases "date d \<ge> daysInMonth y' m'")
  case True
  then show ?thesis
    using assms(1) by (simp add: addMonths_def Let_def setMonth_def assms(2) min_def)
next
  case False
  then have "MakeDay y' m' (date d) = (y', m', date d)"
    using assms(3-5) by (simp add: MakeDay_within)
  with False show ?thesis
    using assms(1) by (simp add: addMonths_def Let_def setMonth_def setFullYear_def assms(2) min_def)
qed

lemma endOfNextMonth:
  assumes "0 \<le> m" "m < 12"
  shows "MakeDay y (m + 1 + 1) 0
     = (if m = 11 then (y + 1, 0, daysInMonth (y + 1) 0) else (y, m + 1, daysInMonth y (m + 1)))"
proof -
  from assms consider "m \<le> 9" | "m = 10" | "m = 11" by linarith
  then show ?thesis
  proof cases
    case 1
    with assms have "(m + 2) div 12 = 0" "(m + 2) mod 12 = m + 2" by simp_all
    with 1 assms show ?thesis
      by (simp add: MakeDay_zero add.commute)
  qed (simp_all add: MakeDay_zero)
qed

lemma addMonths_1:
  assumes "validDate d"
  shows "addMonths d 1 =
     (if month d = 11
      then withDay d (fullYear d + 1, 0, min (date d) (daysInMonth (fullYear d + 1) 0))
      else withDay d (fullYear d, month d + 1, min (date d) (daysInMonth (fullYear d) (month d + 1))))"
proof -
  from assms have m: "0 \<le> month d" "month d < 12" and dt: "1 \<le> date d"
    by (simp_all add: validDate_def)
  show ?thesis
  proof (cases "month d = 11")
    case True
    have "MakeDay (fullYear d) (month d + 1 + 1) 0 = (fullYear d + 1, 0, daysInMonth (fullYear d + 1) 0)"
      using endOfNextMonth [OF m, of "fullYear d"] True by simp
    from addMonths_general [OF _ this _ _ dt] True show ?thesis by simp
  next
    case False
    have "MakeDay (fullYear d) (month d + 1 + 1) 0
        = (fullYear d, month d + 1, daysInMonth (fullYear d) (month d + 1))"
      using endOfNextMonth [OF m, of "fullYear d"] False by simp
    from addMonths_general [OF _ this _ _ dt] m False show ?thesis by simp
  qed
qed

lemma endOfMonthNextYear:
  assumes "0 \<le> m" "m < 12"
  shows "MakeDay y (m + 1 * 12 + 1) 0 = (y + 1, m, daysInMonth (y + 1) m)"
proof -
  from assms consider "m \<le> 10" | "m = 11" by linarith
  then show ?thesis
  proof cases
    case 1
    with assms have "(m + 13) div 12 = 1" "(m + 13) mod 12 = m + 1"
      by presburger+
    with 1 assms show ?thesis
      by (simp add: MakeDay_zero add.commute)
  qed (simp_all add: MakeDay_zero)
qed

lemma addYears_1:
  assumes "validDate d"
  shows "addYears d 1 =
     withDay d (fullYear d + 1, month d, min (date d) (daysInMonth (fullYear d + 1) (month d)))"
proof -
  from assms have m: "0 \<le> month d" "month d < 12" and dt: "1 \<le> date d"
    by (simp_all add: validDate_def)
  have "addYears d 1 = addMonths d (1 * 12)"
    by (simp only: addYears_def)
  also have "\<dots> = withDay d (fullYear d + 1, month d, min (date d) (daysInMonth (fullYear d + 1) (month d)))"
    by (rule addMonths_general [OF _ endOfMonthNextYear [OF m] m dt]) simp
  finally show ?thesis .
qed


lemma nextDay_year: "fst (nextDay c) = fst c \<or> fst (nextDay c) = fst c + 1"
  by (cases c) auto

lemma prevDay_year: "fst (prevDay c) = fst c \<or> fst (prevDay c) = fst c - 1"
  by (cases c) auto

lemma toZonedTime_step:
  assumes v: "validDate d" and h: "- 720 \<le> host" "host \<le> 840"
  shows "validDate (toZonedTime host d)"
    and "fullYear d - 1 \<le> fullYear (toZonedTime host d)"
    and "fullYear (toZonedTime host d) \<le> fullYear d + 1"
    and "wholeSeconds d \<Longrightarrow> wholeSeconds (toZonedTime host d)"
proof -
  define t where "t = msOfDay d + (SINGAPORE_OFFSET - host) * 60000"
  define k where "k = t div msPerDay"
  let ?c = "(fullYear d, month d, date d)"
  from v have c: "validDay ?c" and ms: "0 \<le> msOfDay d" "msOfDay d < msPerDay"
    by (simp_all add: validDate_validDay)
  have t: "- msPerDay \<le> t" "t < 2 * msPerDay"
    using ms h by (simp_all add: t_def msPerDay_def SINGAPORE_OFFSET_def)
  have tod: "0 \<le> t mod msPerDay" "t mod msPerDay < msPerDay"
    by (simp_all add: msPerDay_def)
  have "(- msPerDay) div msPerDay \<le> k"
    unfolding k_def by (rule zdiv_mono1) (use t in \<open>simp_all add: msPerDay_def\<close>)
  moreover have "k \<le> (2 * msPerDay) div msPerDay"
    unfolding k_def by (rule zdiv_mono1) (use t in \<open>simp_all add: msPerDay_def\<close>)
  ultimately have "- 1 \<le> k" "k \<le> 2"
    by (simp_all add: msPerDay_def)
  moreover have "k \<noteq> 2"
  proof
    assume "k = 2"
    then have "2 * msPerDay \<le> t"
      using div_mult_mod_eq [of t msPerDay] tod(1) by (simp add: k_def)
    with t show False by simp
  qed
  ultimately have "k = -1 \<or> k = 0 \<or> k = 1"
    by linarith
  then have k: "plusDays k ?c = prevDay ?c \<or> plusDays k ?c = ?c \<or> plusDays k ?c = nextDay ?c"
    by (auto simp: plusDays_def)
  obtain y' m' d' where eq: "plusDays k ?c = (y', m', d')"
    by (cases "plusDays k ?c")
  have z: "toZonedTime host d = (withDay d (y', m', d'))\<lparr>msOfDay := t mod msPerDay\<rparr>"
    by (simp only: toZonedTime_def addMilliseconds_def Let_def eq [unfolded k_def t_def] t_def)
  from plusDays_valid [OF c, of k] have v': "validDay (y', m', d')"
    by (simp only: eq)
  show "validDate (toZonedTime host d)"
    using v' tod by (simp add: z validDate_validDay)
  have "y' = fst (plusDays k ?c)"
    by (simp only: eq fst_conv)
  with k have "y' = fst (prevDay ?c) \<or> y' = fst ?c \<or> y' = fst (nextDay ?c)"
    by (auto simp del: nextDay.simps prevDay.simps)
  with nextDay_year [of ?c] prevDay_year [of ?c]
  have "y' = fullYear d - 1 \<or> y' = fullYear d \<or> y' = fullYear d + 1"
    by (auto simp del: nextDay.simps prevDay.simps)
  then show "fullYear d - 1 \<le> fullYear (toZonedTime host d)"
    and "fullYear (toZonedTime host d) \<le> fullYear d + 1"
    by (auto simp: z)
  show "wholeSeconds (toZonedTime host d)" if "wholeSeconds d"
  proof -
    have dv: "(1000::int) dvd msPerDay" by (simp add: msPerDay_def)
    have e: "t = msOfDay d + 1000 * ((SINGAPORE_OFFSET - host) * 60)"
      by (simp add: t_def)
    have "t mod 1000 = msOfDay d mod 1000"
      unfolding e by (rule mod_mult_self2)
    with that have "t mod 1000 = 0"
      by (simp add: wholeSeconds_def)
    with mod_mod_cancel [OF dv, of t] have "t mod msPerDay mod 1000 = 0"
      by simp
    then show ?thesis
      by (simp add: z wholeSeconds_def)
  qed
qed

lemma toZonedTime_singapore_host: "validDate d \<Longrightarrow> toZonedTime 480 d = d"
  by (simp add: toZonedTime_def addMilliseconds_def SINGAPORE_OFFSET_def validDate_def plusDays_def
      withDay_def)

section \<open>Printing and reading timestamps\<close>

text \<open>
  \<open>new Date\<close> reads back what \<open>format\<close> prints, for a valid date of whole seconds in
  the years 1 to 9999.
\<close>

lemma of_char_digitChar: "0 \<le> a \<Longrightarrow> a \<le> 9 \<Longrightarrow> (of_char (digitChar a) :: nat) = nat (a + 48)"
  by (simp add: digitChar_def)

lemma digitVal_digitChar: "0 \<le> a \<Longrightarrow> a \<le> 9 \<Longrightarrow> digitVal (digitChar a) = Some a"
  by (simp add: digitVal_def of_char_digitChar Let_def) linarith

lemma number2:
  "0 \<le> a \<Longrightarrow> a \<le> 9 \<Longrightarrow> 0 \<le> b \<Longrightarrow> b \<le> 9 \<Longrightarrow>
   number [digitChar a, digitChar b] = Some (a * 10 + b)"
  by (simp add: digitVal_digitChar)

lemma number4:
  "0 \<le> a \<Longrightarrow> a \<le> 9 \<Longrightarrow> 0 \<le> b \<Longrightarrow> b \<le> 9 \<Longrightarrow> 0 \<le> c \<Longrightarrow> c \<le> 9 \<Longrightarrow> 0 \<le> e \<Longrightarrow> e \<le> 9 \<Longrightarrow>
   number [digitChar a, digitChar b, digitChar c, digitChar e]
     = Some (((a * 10 + b) * 10 + c) * 10 + e)"
  by (simp add: digitVal_digitChar)

lemma digits_small: "n < 10 \<Longrightarrow> digits n = [digitChar n]"
  by (subst digits.simps) simp

lemma digits_rec: "10 \<le> n \<Longrightarrow> digits n = digits (n div 10) @ [digitChar (n mod 10)]"
  by (subst digits.simps) simp

lemma digitChar_0: "digitChar 0 = CHR ''0''"
  by code_simp

lemma replicate_zeros [simp]:
  "replicate 2 c = [c, c]" "replicate 3 c = [c, c, c]"
  by (simp_all add: numeral_2_eq_2 numeral_3_eq_3)

lemma addLeadingZeros2:
  assumes "0 \<le> n" "n < 100"
  shows "addLeadingZeros n 2 = [digitChar (n div 10), digitChar (n mod 10)]"
proof (cases "n < 10")
  case True
  then show ?thesis
    using assms by (simp add: addLeadingZeros_def digits_small digitChar_0)
next
  case False
  then have "n div 10 < 10" using assms by simp
  with False show ?thesis
    by (simp add: addLeadingZeros_def digits_rec digits_small)
qed

lemma digits3:
  assumes "0 \<le> n" "n < 1000"
  shows "replicate (3 - length (digits n)) (CHR ''0'') @ digits n
     = [digitChar (n div 100), digitChar (n div 10 mod 10), digitChar (n mod 10)]"
proof (cases "n < 100")
  case True
  with addLeadingZeros2 [OF assms(1) True] show ?thesis
    using assms
    by (cases "n < 10") (simp_all add: addLeadingZeros_def digits_small digits_rec digitChar_0 Let_def)
next
  case False
  then have a: "10 \<le> n div 10" "n div 10 < 100" "n div 10 div 10 < 10" "10 \<le> n"
    using assms by simp_all
  have "n div 10 div 10 = n div 100"
    using zdiv_zmult2_eq [of 10 n 10] by simp
  with a show ?thesis
    by (simp add: digits_rec [of n] digits_rec [of "n div 10"] digits_small)
qed

lemma addLeadingZeros4:
  assumes "0 \<le> n" "n < 10000"
  shows "addLeadingZeros n 4
     = [digitChar (n div 1000), digitChar (n div 100 mod 10), digitChar (n div 10 mod 10),
        digitChar (n mod 10)]"
proof (cases "n < 1000")
  case True
  have "replicate (4 - length (digits n)) (CHR ''0'')
      = CHR ''0'' # replicate (3 - length (digits n)) (CHR ''0'')"
  proof -
    have "length (replicate (3 - length (digits n)) (CHR ''0'') @ digits n) = 3"
      by (simp only: digits3 [OF assms(1) True]) simp
    then have "length (digits n) \<le> 3"
      by simp
    then have "4 - length (digits n) = Suc (3 - length (digits n))" by simp
    then show ?thesis by (simp only: replicate_Suc)
  qed
  with digits3 [OF assms(1) True] True assms show ?thesis
    by (simp add: addLeadingZeros_def Let_def digitChar_0)
next
  case False
  then have a: "10 \<le> n" "0 \<le> n div 10" "n div 10 < 1000" "100 \<le> n div 10"
    using assms by simp_all
  have len: "length (digits (n div 10)) = 3"
  proof -
    have b: "10 \<le> n div 10" "n div 10 div 10 < 100" "10 \<le> n div 10 div 10" "n div 10 div 10 div 10 < 10"
      using a by simp_all
    have "length (digits (n div 10)) = Suc (length (digits (n div 10 div 10)))"
      by (simp only: digits_rec [OF b(1)] length_append length_Cons list.size add_Suc_right add_0_right)
    also have "length (digits (n div 10 div 10)) = Suc (length (digits (n div 10 div 10 div 10)))"
      by (simp only: digits_rec [OF b(3)] length_append length_Cons list.size add_Suc_right add_0_right)
    also have "length (digits (n div 10 div 10 div 10)) = Suc 0"
      by (simp only: digits_small [OF b(4)] length_Cons list.size)
    finally show ?thesis
      by (simp only: numeral_3_eq_3)
  qed
  have d: "n div 10 div 100 = n div 1000" "n div 10 div 10 = n div 100"
    using zdiv_zmult2_eq [of 100 n 10] zdiv_zmult2_eq [of 10 n 10] by simp_all
  from digits3 [OF a(2,3)] len have "digits (n div 10)
      = [digitChar (n div 1000), digitChar (n div 100 mod 10), digitChar (n div 10 mod 10)]"
    by (simp add: d)
  with a show ?thesis
    by (simp add: addLeadingZeros_def Let_def digits_rec [of n])
qed


lemma timeOfDay_decompose:
  assumes "0 \<le> t" "t < 86400000" "t mod 1000 = 0"
  shows "t div 3600000 * 3600000 + t div 60000 mod 60 * 60000 + t div 1000 mod 60 * 1000 = (t::int)"
    and "0 \<le> t div 3600000" "t div 3600000 < 24"
proof -
  define u where "u = t div 1000"
  define v where "v = u div 60"
  have t: "t = u * 1000"
    using assms(3) div_mult_mod_eq [of t 1000] by (simp add: u_def)
  have m: "t div 60000 = v"
    using zdiv_zmult2_eq [of 60 t 1000] by (simp add: u_def v_def)
  have h: "t div 3600000 = v div 60"
    using zdiv_zmult2_eq [of 60 t 60000] m by simp
  define q where "q = v div 60"
  define r where "r = v mod 60"
  define w where "w = u mod 60"
  have u: "u = v * 60 + w"
    unfolding v_def w_def by simp
  have v: "v = q * 60 + r"
    unfolding q_def r_def by simp
  have "q * 3600000 + r * 60000 + w * 1000 = t"
    unfolding t u v by (simp add: algebra_simps)
  then show "t div 3600000 * 3600000 + t div 60000 mod 60 * 60000 + t div 1000 mod 60 * 1000 = t"
    by (simp only: h m q_def r_def w_def u_def)
  show "0 \<le> t div 3600000"
    using assms(1) by simp
  have "t div 3600000 \<le> 86399999 div 3600000"
    by (rule zdiv_mono1) (use assms in simp_all)
  then show "t div 3600000 < 24"
    by simp
qed

lemma month_two_digits:
  "0 \<le> m \<Longrightarrow> m < 12 \<Longrightarrow> ((m + 1) div 10) * 10 + (m + 1) mod 10 - 1 = (m::int)"
  by simp

lemma four_digits: "(((n div 1000) * 10 + n div 100 mod 10) * 10 + n div 10 mod 10) * 10 + n mod 10 = (n::int)"
proof -
  have a: "n div 100 = n div 10 div 10" "n div 1000 = n div 10 div 10 div 10"
    using zdiv_zmult2_eq [of 10 n 10] zdiv_zmult2_eq [of 10 n 100] zdiv_zmult2_eq [of 10 "n div 10" 10]
    by simp_all
  define a1 where "a1 = n div 10"
  define a2 where "a2 = a1 div 10"
  have "(a2 div 10 * 10 + a2 mod 10) * 10 + a1 mod 10 = a1"
    by (simp add: a2_def)
  then have "((a2 div 10 * 10 + a2 mod 10) * 10 + a1 mod 10) * 10 + n mod 10 = n"
    by (simp add: a1_def)
  then show ?thesis
    by (simp only: a a1_def a2_def)
qed


lemma two_digit_ranges:
  assumes "0 \<le> n" "n < 100"
  shows "0 \<le> n div 10" "n div 10 \<le> 9" "0 \<le> n mod 10" "n mod 10 \<le> (9::int)"
  using assms by simp_all

lemma parse_fields:
  assumes y: "0 \<le> y1" "y1 \<le> 9" "0 \<le> y2" "y2 \<le> 9" "0 \<le> y3" "y3 \<le> 9" "0 \<le> y4" "y4 \<le> 9"
    and m: "0 \<le> m1" "m1 \<le> 9" "0 \<le> m2" "m2 \<le> 9"
    and d: "0 \<le> d1" "d1 \<le> 9" "0 \<le> d2" "d2 \<le> 9"
    and h: "0 \<le> h1" "h1 \<le> 9" "0 \<le> h2" "h2 \<le> 9"
    and i: "0 \<le> i1" "i1 \<le> 9" "0 \<le> i2" "i2 \<le> 9"
    and s: "0 \<le> s1" "s1 \<le> 9" "0 \<le> s2" "s2 \<le> 9"
  shows "parseDate [digitChar y1, digitChar y2, digitChar y3, digitChar y4, CHR ''-'',
           digitChar m1, digitChar m2, CHR ''-'', digitChar d1, digitChar d2, CHR '' '',
           digitChar h1, digitChar h2, CHR '':'', digitChar i1, digitChar i2, CHR '':'',
           digitChar s1, digitChar s2]
     = (let dt = \<lparr>fullYear = ((y1 * 10 + y2) * 10 + y3) * 10 + y4, month = m1 * 10 + m2 - 1,
                    date = d1 * 10 + d2,
                    msOfDay = (h1 * 10 + h2) * 3600000 + (i1 * 10 + i2) * 60000
                                + (s1 * 10 + s2) * 1000\<rparr>
        in if validDate dt \<and> h1 * 10 + h2 < 24 \<and> i1 * 10 + i2 < 60 \<and> s1 * 10 + s2 < 60
              \<and> 1000 \<le> ((y1 * 10 + y2) * 10 + y3) * 10 + y4
           then Some dt else None)"
  by (simp add: parseDate_def number4 [OF y] number2 [OF m] number2 [OF d] number2 [OF h]
      number2 [OF i] number2 [OF s] Let_def del: number.simps)

lemma parseDate_format:
  assumes v: "validDate d" and w: "wholeSeconds d" and yr: "1000 \<le> fullYear d" "fullYear d \<le> 9999"
  shows "parseDate (format d) = Some d"
proof -
  define y where "y = fullYear d"
  define mo where "mo = month d + 1"
  define dd where "dd = date d"
  define t where "t = msOfDay d"
  define h where "h = t div 3600000"
  define mi where "mi = t div 60000 mod 60"
  define sec where "sec = t div 1000 mod 60"
  from v have t: "0 \<le> t" "t < 86400000" and mo: "0 \<le> mo" "mo < 100" "1 \<le> mo" "mo \<le> 12"
    and dd: "0 \<le> dd" "dd < 100"
    using daysInMonth_def [of "fullYear d" "month d"]
    by (auto simp: validDate_def t_def mo_def dd_def msPerDay_def split: if_splits)
  from w have t0: "t mod 1000 = 0"
    by (simp add: wholeSeconds_def t_def)
  from timeOfDay_decompose [OF t t0] have sum: "h * 3600000 + mi * 60000 + sec * 1000 = t"
    and h: "0 \<le> h" "h < 100" "h < 24"
    by (simp_all add: h_def mi_def sec_def)
  have mi: "0 \<le> mi" "mi < 100" "mi < 60" and sec: "0 \<le> sec" "sec < 100" "sec < 60"
    by (simp_all add: mi_def sec_def)
  have y: "0 \<le> y" "y < 10000" and y1000: "1000 \<le> y"
    using yr by (simp_all add: y_def)
  have y4: "0 \<le> y div 1000" "y div 1000 \<le> 9" "0 \<le> y div 100 mod 10" "y div 100 mod 10 \<le> 9"
    "0 \<le> y div 10 mod 10" "y div 10 mod 10 \<le> 9" "0 \<le> y mod 10" "y mod 10 \<le> 9"
    using y by simp_all
  have f: "format d =
      [digitChar (y div 1000), digitChar (y div 100 mod 10), digitChar (y div 10 mod 10),
       digitChar (y mod 10), CHR ''-'',
       digitChar (mo div 10), digitChar (mo mod 10), CHR ''-'',
       digitChar (dd div 10), digitChar (dd mod 10), CHR '' '',
       digitChar (h div 10), digitChar (h mod 10), CHR '':'',
       digitChar (mi div 10), digitChar (mi mod 10), CHR '':'',
       digitChar (sec div 10), digitChar (sec mod 10)]"
    using yr
    by (simp add: format_def Let_def addLeadingZeros4 [OF y] addLeadingZeros2 [OF mo(1,2)]
        addLeadingZeros2 [OF dd] addLeadingZeros2 [OF h(1,2)] addLeadingZeros2 [OF mi(1,2)]
        addLeadingZeros2 [OF sec(1,2)]
        flip: y_def mo_def dd_def t_def h_def mi_def sec_def)
  have recomb4: "((y div 1000 * 10 + y div 100 mod 10) * 10 + y div 10 mod 10) * 10 + y mod 10 = y"
    by (rule four_digits)
  have recomb: "mo div 10 * 10 + mo mod 10 = mo" "dd div 10 * 10 + dd mod 10 = dd"
    "h div 10 * 10 + h mod 10 = h" "mi div 10 * 10 + mi mod 10 = mi"
    "sec div 10 * 10 + sec mod 10 = sec"
    by simp_all
  have same: "\<lparr>fullYear = y, month = mo - 1, date = dd, msOfDay = h * 3600000 + mi * 60000 + sec * 1000\<rparr> = d"
    by (simp add: sum) (simp add: y_def mo_def dd_def t_def)
  show ?thesis
    unfolding f
    by (subst parse_fields)
      (use y4 two_digit_ranges [OF mo(1,2)] two_digit_ranges [OF dd] two_digit_ranges [OF h(1,2)]
        two_digit_ranges [OF mi(1,2)] two_digit_ranges [OF sec(1,2)] in
        \<open>simp_all only: recomb4 recomb same Let_def v h mi sec y1000 simp_thms if_True\<close>)
qed

text \<open>A string of another form, a date alone for one, is read by the engine.\<close>

lemma newDate_other_form:
  "parseDate s = None \<Longrightarrow> s \<noteq> [] \<Longrightarrow> newDate engine s = engine s"
  by (simp add: newDate_def)

lemma parseDate_date_only: "parseDate ''2026-02-09'' = None"
  by code_simp

section \<open>Properties of the reminder window evaluator\<close>

lemma reminderFilter_iff:
  "reminderFilter fsub engine host now todo \<longleftrightarrow>
     completed todo = 0 \<and>
     (\<exists>rm dueTime reminderTime. reminder_minutes todo = Some rm \<and> rm \<noteq> 0 \<and>
        newDate engine (due_date todo) = Some dueTime \<and>
        TimeClip (minusLead fsub (getTime host dueTime) rm) = Some reminderTime \<and>
        reminderTime \<le> getTime host now \<and>
        getTime host now < getTime host dueTime \<and>
        (\<forall>sent lastSent. last_notification_sent todo = Some sent \<longrightarrow> sent \<noteq> [] \<longrightarrow>
            newDate engine sent = Some lastSent \<longrightarrow>
            5 * 60000 \<le> getTime host now - getTime host lastSent))"
  by (auto simp: reminderFilter_def Let_def split: option.splits)

text \<open>The reminder time of a lead time that is an integer.\<close>

lemma TimeClip_int:
  "TimeClip (real_of_int t) = (if \<bar>t\<bar> \<le> maxTime then Some t else None)"
proof -
  have "\<bar>real_of_int t\<bar> \<le> real_of_int maxTime \<longleftrightarrow> \<bar>t\<bar> \<le> maxTime"
    by linarith
  then show ?thesis
    by (simp add: TimeClip_def)
qed

lemma minusLead_int:
  "minusLead fsub t (real_of_int k) = real_of_int (t - k * 60000)"
  by (simp add: minusLead_def)

lemma minusLead_fraction: "minusLead fsub t (3 / 2) = fsub t (3 / 2)"
proof -
  have "(3 / 2 :: real) \<noteq> real_of_int \<lfloor>3 / 2 :: real\<rfloor>"
    by simp
  then show ?thesis
    by (simp only: minusLead_def if_False)
qed

lemma reminderTime_int:
  "TimeClip (minusLead fsub t (real_of_int k))
     = (if \<bar>t - k * 60000\<bar> \<le> maxTime then Some (t - k * 60000) else None)"
  by (simp only: minusLead_int TimeClip_int)

lemma in_dueReminders:
  "todo \<in> fst ` set (dueReminders fsub engine host now todos) \<longleftrightarrow>
     todo \<in> set todos \<and> reminderFilter fsub engine host now todo"
  by (force simp: dueReminders_def)

lemma set_dueReminders:
  "(todo, m) \<in> set (dueReminders fsub engine host now todos) \<longleftrightarrow>
     todo \<in> set todos \<and> reminderFilter fsub engine host now todo
     \<and> m = minutesUntilDue engine host now todo"
  by (auto simp: dueReminders_def)

lemma Math_round_bounds:
  assumes "0 < d" "d \<le> rm * 60000"
  shows "0 \<le> Math_round (real_of_int d / (60 * 1000))"
    and "Math_round (real_of_int d / (60 * 1000)) \<le> rm"
proof -
  have "0 \<le> real_of_int d / (60 * 1000) + 1 / 2"
    using assms by simp
  then show "0 \<le> Math_round (real_of_int d / (60 * 1000))"
    unfolding Math_round_def by simp
  have "real_of_int d \<le> real_of_int rm * 60000"
    using assms(2) by (metis of_int_le_iff of_int_mult of_int_numeral)
  then have "real_of_int d / (60 * 1000) + 1 / 2 < real_of_int rm + 1"
    by simp
  then show "Math_round (real_of_int d / (60 * 1000)) \<le> rm"
    unfolding Math_round_def by (simp add: floor_le_iff)
qed

lemma Math_round_nonneg:
  assumes "0 < d"
  shows "0 \<le> Math_round (real_of_int d / (60 * 1000))"
proof -
  have "0 \<le> real_of_int d / (60 * 1000) + 1 / 2"
    using assms by simp
  then show ?thesis
    unfolding Math_round_def by simp
qed




text \<open>
  C8. A completed todo (\<open>completed\<close> not 0) is never among the returned reminders,
  whatever its due date, its lead time and its notification history.
\<close>

theorem completed_never_reminded:
  "completed todo \<noteq> 0 \<Longrightarrow> todo \<notin> fst ` set (dueReminders fsub engine host now todos)"
  unfolding in_dueReminders reminderFilter_iff by simp

theorem completed_never_reminded_witness:
  "completed (sampleTodo\<lparr>completed := 1\<rparr>) \<noteq> 0
   \<and> sampleTodo\<lparr>completed := 1\<rparr>
        \<notin> fst ` set (dueReminders exactDifference noOtherForm 480 (clockAt 13 30)
                        [sampleTodo\<lparr>completed := 1\<rparr>])"
proof -
  have h: "completed (sampleTodo\<lparr>completed := 1\<rparr>) \<noteq> 0"
    by simp
  show ?thesis
    using h completed_never_reminded [OF h] by blast
qed

text \<open>
  C10, as amended. Every returned entry carries a number of minutes until due that is
  not \<open>NaN\<close> and not negative, and that is not above the reminder lead time of the todo
  when the lead time is a whole number of minutes.
\<close>

theorem minutesUntilDue_bounds:
  assumes "(todo, m) \<in> set (dueReminders fsub engine host now todos)"
  shows "\<exists>n rm. m = Some n \<and> reminder_minutes todo = Some rm \<and> 0 \<le> n
           \<and> (rm = real_of_int \<lfloor>rm\<rfloor> \<longrightarrow> real_of_int n \<le> rm)"
proof -
  from assms have f: "reminderFilter fsub engine host now todo"
    and m: "m = minutesUntilDue engine host now todo"
    by (simp_all add: set_dueReminders)
  from f obtain rm dueTime reminderTime where rm: "reminder_minutes todo = Some rm"
    and due: "newDate engine (due_date todo) = Some dueTime"
    and rt: "TimeClip (minusLead fsub (getTime host dueTime) rm) = Some reminderTime"
    and lo: "reminderTime \<le> getTime host now"
    and hi: "getTime host now < getTime host dueTime"
    unfolding reminderFilter_iff by blast
  let ?d = "getTime host dueTime - getTime host now"
  let ?n = "Math_round (real_of_int ?d / (60 * 1000))"
  have pos: "0 < ?d"
    using hi by simp
  have n: "m = Some ?n"
    using m due by (simp add: minutesUntilDue_def)
  have "real_of_int ?n \<le> rm" if whole: "rm = real_of_int \<lfloor>rm\<rfloor>"
  proof -
    from rt have "TimeClip (minusLead fsub (getTime host dueTime) (real_of_int \<lfloor>rm\<rfloor>)) = Some reminderTime"
      using whole by simp
    then have "reminderTime = getTime host dueTime - \<lfloor>rm\<rfloor> * 60000"
      unfolding reminderTime_int by (simp split: if_splits)
    with lo have "?d \<le> \<lfloor>rm\<rfloor> * 60000"
      by simp
    from Math_round_bounds(2) [OF pos this] have "real_of_int ?n \<le> real_of_int \<lfloor>rm\<rfloor>"
      by linarith
    with whole show ?thesis
      by simp
  qed
  with n rm Math_round_nonneg [OF pos] show ?thesis
    by blast
qed

theorem minutesUntilDue_bounds_witness:
  "(sampleTodo, Some 30)
      \<in> set (dueReminders exactDifference noOtherForm 480 (clockAt 13 30) [sampleTodo])
   \<and> reminder_minutes sampleTodo = Some 60
   \<and> (0::int) \<le> 30 \<and> real_of_int 30 \<le> 60"
proof -
  have h: "(sampleTodo, Some 30)
      \<in> set (dueReminders exactDifference noOtherForm 480 (clockAt 13 30) [sampleTodo])"
    by code_simp
  have rm: "reminder_minutes sampleTodo = Some 60"
    by (simp add: sampleTodo_def)
  from minutesUntilDue_bounds [OF h] obtain n rm' where
    b: "Some 30 = Some n" "reminder_minutes sampleTodo = Some rm'" "0 \<le> n"
      "rm' = real_of_int \<lfloor>rm'\<rfloor> \<longrightarrow> real_of_int n \<le> rm'"
    by blast
  from b(1) have n: "n = 30"
    by simp
  from b(2) rm have rm': "rm' = 60"
    by simp
  from b(4) have "real_of_int n \<le> rm'"
    unfolding rm' by simp
  with b(3) h rm show ?thesis
    unfolding n rm' by simp
qed

text \<open>
  The claim as stated fails for a lead time with a fraction, which the routes accept
  and the column keeps: with a lead time of 1.5 minutes and \<open>now\<close> 90 seconds before
  the due date, the todo is returned with \<open>Math.round(1.5) = 2\<close> minutes until due. All
  the doubles of this computation are exact.
\<close>

theorem minutesUntilDue_exceeds_fractional_lead:
  "(sampleTodo\<lparr>reminder_minutes := Some (3 / 2)\<rparr>, Some 2)
      \<in> set (dueReminders exactDifference noOtherForm 480
                \<lparr>fullYear = 2026, month = 1, date = 10, msOfDay = 50310000\<rparr>
                [sampleTodo\<lparr>reminder_minutes := Some (3 / 2)\<rparr>])
   \<and> \<not> (real_of_int 2 \<le> 3 / 2)"
  by code_simp

subsection \<open>The time of the last notification\<close>

lemma markNotified_total: "\<exists>db'. markNotified sentAt reminders db = Inr db'"
  by (induction reminders arbitrary: db) (simp_all add: todoDB_update_def noUpdate_def Let_def)

text \<open>
  On a host whose local time is Singapore's, the handler records the notification at
  the time of the poll: the todo it returned at 13:30 is not returned one minute later
  and is returned again five minutes later.
\<close>

lemma GET_check_singapore_host:
  "GET_check fsub engine 480 (clockAt 13 30) (Some 1) sampleDB
     = (sampleDB\<lparr>todos_table :=
          [sampleTodo\<lparr>last_notification_sent := Some ''2026-02-10 13:30:00''\<rparr>]\<rparr>,
        Success [(sampleTodo, Some 30)])"
  "snd (GET_check fsub engine 480 (clockAt 13 31) (Some 1)
          (fst (GET_check fsub engine 480 (clockAt 13 30) (Some 1) sampleDB)))
     = Success []"
  "snd (GET_check fsub engine 480 (clockAt 13 35) (Some 1)
          (fst (GET_check fsub engine 480 (clockAt 13 30) (Some 1) sampleDB)))
     = Success [(sampleTodo\<lparr>last_notification_sent := Some ''2026-02-10 13:30:00''\<rparr>, Some 25)]"
  by code_simp+

text \<open>
  C4. The claim has a todo skipped during the five minutes that follow its last
  notification and eligible again after them. The time of the last notification is
  written by the handler itself, as \<open>formatSingaporeDate(now)\<close>, where \<open>now\<close> already
  is the Singapore reading of the clock: the difference between the host's time and
  Singapore's enters the stored time twice, and the filter reads it back as host time.
  On a host whose local time is UTC, the todo that is returned at 05:30 (13:30 in
  Singapore, half an hour before it is due) is recorded as notified at 21:30, and it is
  not returned 6 minutes and 20 minutes later, inside its window. On a host at UTC+9
  the todo returned at 14:30 (13:30 in Singapore) is recorded as notified at 12:30 and
  is returned again one minute later.
\<close>

theorem reminder_renotification_off_singapore_time:
  "GET_check fsub engine 0 (clockAt 5 30) (Some 1) sampleDB
     = (sampleDB\<lparr>todos_table :=
          [sampleTodo\<lparr>last_notification_sent := Some ''2026-02-10 21:30:00''\<rparr>]\<rparr>,
        Success [(sampleTodo, Some 30)])
   \<and> snd (GET_check fsub engine 0 (clockAt 5 36) (Some 1)
            (fst (GET_check fsub engine 0 (clockAt 5 30) (Some 1) sampleDB)))
     = Success []
   \<and> snd (GET_check fsub engine 0 (clockAt 5 50) (Some 1)
            (fst (GET_check fsub engine 0 (clockAt 5 30) (Some 1) sampleDB)))
     = Success []
   \<and> GET_check fsub engine 540 (clockAt 14 30) (Some 1) sampleDB
     = (sampleDB\<lparr>todos_table :=
          [sampleTodo\<lparr>last_notification_sent := Some ''2026-02-10 12:30:00''\<rparr>]\<rparr>,
        Success [(sampleTodo, Some 30)])
   \<and> snd (GET_check fsub engine 540 (clockAt 14 31) (Some 1)
            (fst (GET_check fsub engine 540 (clockAt 14 30) (Some 1) sampleDB)))
     = Success [(sampleTodo\<lparr>last_notification_sent := Some ''2026-02-10 12:30:00''\<rparr>, Some 29)]"
proof -
  have a: "GET_check fsub engine 0 (clockAt 5 30) (Some 1) sampleDB
     = (sampleDB\<lparr>todos_table :=
          [sampleTodo\<lparr>last_notification_sent := Some ''2026-02-10 21:30:00''\<rparr>]\<rparr>,
        Success [(sampleTodo, Some 30)])"
    by code_simp
  have b: "snd (GET_check fsub engine 0 (clockAt 5 36) (Some 1)
            (fst (GET_check fsub engine 0 (clockAt 5 30) (Some 1) sampleDB)))
     = Success []"
    by code_simp
  have c: "snd (GET_check fsub engine 0 (clockAt 5 50) (Some 1)
            (fst (GET_check fsub engine 0 (clockAt 5 30) (Some 1) sampleDB)))
     = Success []"
    by code_simp
  have d: "GET_check fsub engine 540 (clockAt 14 30) (Some 1) sampleDB
     = (sampleDB\<lparr>todos_table :=
          [sampleTodo\<lparr>last_notification_sent := Some ''2026-02-10 12:30:00''\<rparr>]\<rparr>,
        Success [(sampleTodo, Some 30)])"
    by code_simp
  have e: "snd (GET_check fsub engine 540 (clockAt 14 31) (Some 1)
            (fst (GET_check fsub engine 540 (clockAt 14 30) (Some 1) sampleDB)))
     = Success [(sampleTodo\<lparr>last_notification_sent := Some ''2026-02-10 12:30:00''\<rparr>, Some 29)]"
    by code_simp
  from a b c d e show ?thesis
    by (intro conjI)
qed


section \<open>Properties of the recurrence calculator\<close>

lemma newDate_parseDate: "parseDate s = Some d \<Longrightarrow> newDate engine s = Some d"
  by (simp add: newDate_def)

text \<open>
  C7. With a pattern other than \<open>daily\<close>, \<open>weekly\<close>, \<open>monthly\<close> and \<open>yearly\<close>, \<open>null\<close>
  included, \<open>calculateNextDueDate\<close> throws the error of its \<open>default\<close> branch, whatever
  the due date.
\<close>

theorem calculateNextDueDate_invalid_pattern:
  "pattern \<notin> {Some ''daily'', Some ''weekly'', Some ''monthly'', Some ''yearly''} \<Longrightarrow>
   calculateNextDueDate engine host currentDueDate pattern
     = Inl (Error (''Invalid recurrence pattern: ''
              @ (case pattern of None \<Rightarrow> ''null'' | Some p \<Rightarrow> p)))"
  by (simp add: calculateNextDueDate_def)

theorem calculateNextDueDate_invalid_pattern_witness:
  "None \<notin> {Some ''daily'', Some ''weekly'', Some ''monthly'', Some ''yearly''}
   \<and> calculateNextDueDate noOtherForm 480 ''2026-02-10T14:00'' None
       = Inl (Error ''Invalid recurrence pattern: null'')
   \<and> Some ''hourly'' \<notin> {Some ''daily'', Some ''weekly'', Some ''monthly'', Some ''yearly''}
   \<and> calculateNextDueDate noOtherForm 480 ''2026-02-10T14:00'' (Some ''hourly'')
       = Inl (Error ''Invalid recurrence pattern: hourly'')"
proof -
  have h1: "None \<notin> {Some ''daily'', Some ''weekly'', Some ''monthly'', Some ''yearly''}"
    by simp
  have h2: "Some ''hourly'' \<notin> {Some ''daily'', Some ''weekly'', Some ''monthly'', Some ''yearly''}"
    by simp
  show ?thesis
    using h1 h2
      calculateNextDueDate_invalid_pattern [OF h1, of noOtherForm 480 "''2026-02-10T14:00''"]
      calculateNextDueDate_invalid_pattern [OF h2, of noOtherForm 480 "''2026-02-10T14:00''"]
    by simp
qed

subsection \<open>The sequence of occurrences\<close>

lemma occurrencesLoop_iff:
  "occurrencesLoop engine host pattern k cur acc = Inr ys \<longleftrightarrow>
     (\<exists>xs. ys = acc @ xs \<and> length xs = k \<and>
        (\<forall>i < k. calculateNextDueDate engine host ((cur # xs) ! i) pattern = Inr (xs ! i)))"
proof (induction k arbitrary: cur acc)
  case 0
  then show ?case by auto
next
  case (Suc k)
  show ?case
  proof (cases "calculateNextDueDate engine host cur pattern")
    case (Inl e)
    have "\<not> (\<exists>xs. ys = acc @ xs \<and> length xs = Suc k \<and>
        (\<forall>i < Suc k. calculateNextDueDate engine host ((cur # xs) ! i) pattern = Inr (xs ! i)))"
    proof
      assume "\<exists>xs. ys = acc @ xs \<and> length xs = Suc k \<and>
        (\<forall>i < Suc k. calculateNextDueDate engine host ((cur # xs) ! i) pattern = Inr (xs ! i))"
      then obtain xs where
        "\<forall>i < Suc k. calculateNextDueDate engine host ((cur # xs) ! i) pattern = Inr (xs ! i)"
        by blast
      then have "calculateNextDueDate engine host ((cur # xs) ! 0) pattern = Inr (xs ! 0)"
        by blast
      with Inl show False by simp
    qed
    with Inl show ?thesis by simp
  next
    case (Inr nxt)
    have "(\<exists>xs. ys = acc @ xs \<and> length xs = Suc k \<and>
             (\<forall>i < Suc k. calculateNextDueDate engine host ((cur # xs) ! i) pattern = Inr (xs ! i)))
        \<longleftrightarrow> (\<exists>xs'. ys = (acc @ [nxt]) @ xs' \<and> length xs' = k \<and>
             (\<forall>i < k. calculateNextDueDate engine host ((nxt # xs') ! i) pattern = Inr (xs' ! i)))"
      (is "?L \<longleftrightarrow> ?R")
    proof
      assume ?L
      then obtain xs where xs: "ys = acc @ xs" "length xs = Suc k"
        and ch: "\<forall>i < Suc k. calculateNextDueDate engine host ((cur # xs) ! i) pattern = Inr (xs ! i)"
        by blast
      from xs(2) obtain x xs' where c: "xs = x # xs'" and l: "length xs' = k"
        by (cases xs) simp_all
      from ch have "calculateNextDueDate engine host ((cur # xs) ! 0) pattern = Inr (xs ! 0)"
        by blast
      with Inr c have x: "x = nxt"
        by simp
      have "\<forall>i < k. calculateNextDueDate engine host ((nxt # xs') ! i) pattern = Inr (xs' ! i)"
      proof (intro allI impI)
        fix i assume "i < k"
        then have "calculateNextDueDate engine host ((cur # xs) ! Suc i) pattern = Inr (xs ! Suc i)"
          using ch by (meson Suc_less_eq)
        then show "calculateNextDueDate engine host ((nxt # xs') ! i) pattern = Inr (xs' ! i)"
          by (simp add: c x)
      qed
      with xs(1) c x l show ?R
        by auto
    next
      assume ?R
      then obtain xs' where xs': "ys = (acc @ [nxt]) @ xs'" "length xs' = k"
        and ch: "\<forall>i < k. calculateNextDueDate engine host ((nxt # xs') ! i) pattern = Inr (xs' ! i)"
        by blast
      have "\<forall>i < Suc k. calculateNextDueDate engine host ((cur # nxt # xs') ! i) pattern
          = Inr ((nxt # xs') ! i)"
      proof (intro allI impI)
        fix i assume "i < Suc k"
        then show "calculateNextDueDate engine host ((cur # nxt # xs') ! i) pattern
            = Inr ((nxt # xs') ! i)"
          using Inr ch by (cases i) simp_all
      qed
      with xs' show ?L
        by (intro exI [of _ "nxt # xs'"]) simp
    qed
    with Inr Suc.IH [of nxt "acc @ [nxt]"] show ?thesis
      by simp
  qed
qed

lemma calculateNextOccurrences_iff:
  "calculateNextOccurrences engine host startDate pattern n = Inr xs \<longleftrightarrow>
     int (length xs) = max 1 n \<and> xs ! 0 = startDate \<and>
     (\<forall>i. Suc i < length xs \<longrightarrow>
        calculateNextDueDate engine host (xs ! i) pattern = Inr (xs ! Suc i))"
  (is "?L \<longleftrightarrow> ?R")
proof
  assume ?L
  then obtain ys where ys: "xs = [startDate] @ ys" "length ys = nat (n - 1)"
    and ch: "\<forall>i < nat (n - 1).
        calculateNextDueDate engine host ((startDate # ys) ! i) pattern = Inr (ys ! i)"
    unfolding calculateNextOccurrences_def occurrencesLoop_iff by blast
  from ys have "int (length xs) = max 1 n"
    by auto
  moreover from ys have "xs ! 0 = startDate"
    by simp
  moreover have "\<forall>i. Suc i < length xs \<longrightarrow>
        calculateNextDueDate engine host (xs ! i) pattern = Inr (xs ! Suc i)"
    using ys ch by simp
  ultimately show ?R
    by blast
next
  assume r: ?R
  then have ne: "xs \<noteq> []"
    by auto
  then obtain ys where c: "xs = startDate # ys"
    using r by (cases xs) simp_all
  from r c have l: "length ys = nat (n - 1)"
    by auto
  from r c have "\<forall>i < nat (n - 1).
        calculateNextDueDate engine host ((startDate # ys) ! i) pattern = Inr (ys ! i)"
    using l by simp
  with c l show ?L
    unfolding calculateNextOccurrences_def occurrencesLoop_iff by simp
qed




text \<open>
  And the function throws where \<open>calculateNextDueDate\<close> does, as for a start date that
  is no date.
\<close>

lemma calculateNextOccurrences_throws:
  "calculateNextOccurrences engine host [] (Some ''daily'') 5 = Inl RangeError"
  by code_simp

subsection \<open>Every step of the calculator succeeds on a timestamp the app writes\<close>

lemma ms_whole:
  "(h * 3600000 + mi * 60000 + sec * 1000) mod 1000 = (0::int)"
  "(h * 3600000 + mi * 60000) mod 1000 = (0::int)"
proof -
  have "h * 3600000 + mi * 60000 + sec * 1000 = 1000 * (h * 3600 + mi * 60 + sec)"
    by simp
  then show "(h * 3600000 + mi * 60000 + sec * 1000) mod 1000 = 0"
    by (simp only: mod_mult_self1_is_0)
  have "h * 3600000 + mi * 60000 = 1000 * (h * 3600 + mi * 60)"
    by simp
  then show "(h * 3600000 + mi * 60000) mod 1000 = 0"
    by (simp only: mod_mult_self1_is_0)
qed

lemma parseDate_Some:
  assumes "parseDate s = Some d"
  shows "validDate d" and "wholeSeconds d"
  using assms unfolding parseDate_def Let_def
  by (auto split: if_splits option.splits simp: wholeSeconds_def ms_whole)

lemma addDays_unit:
  assumes "validDate c"
  shows "validDate (addDays c 1) \<and> msOfDay (addDays c 1) = msOfDay c
     \<and> fullYear c \<le> fullYear (addDays c 1) \<and> fullYear (addDays c 1) \<le> fullYear c + 1"
  using addDays_step [OF assms, of 1] by simp

lemma addWeeks_unit:
  assumes "validDate c"
  shows "validDate (addWeeks c 1) \<and> msOfDay (addWeeks c 1) = msOfDay c
     \<and> fullYear c \<le> fullYear (addWeeks c 1) \<and> fullYear (addWeeks c 1) \<le> fullYear c + 1"
  using addDays_step [OF assms, of 7] by (simp add: addWeeks_def)

lemma validDate_clamped:
  assumes "validDate c" "0 \<le> m'" "m' < 12"
  shows "validDate (withDay c (y', m', min (date c) (daysInMonth y' m')))"
proof -
  from assms(1) have "1 \<le> date c" "0 \<le> msOfDay c" "msOfDay c < msPerDay"
    by (simp_all add: validDate_def)
  moreover have "1 \<le> daysInMonth y' m'"
    using daysInMonth_bounds(1) [of y' m'] by simp
  ultimately show ?thesis
    using assms(2,3) by (simp add: validDate_def)
qed

lemma addMonths_unit:
  assumes "validDate c"
  shows "validDate (addMonths c 1) \<and> msOfDay (addMonths c 1) = msOfDay c
     \<and> fullYear c \<le> fullYear (addMonths c 1) \<and> fullYear (addMonths c 1) \<le> fullYear c + 1"
proof -
  from assms have m: "0 \<le> month c" "month c < 12"
    by (simp_all add: validDate_def)
  show ?thesis
  proof (cases "month c = 11")
    case True
    with validDate_clamped [OF assms, of 0 "fullYear c + 1"] show ?thesis
      by (simp add: addMonths_1 [OF assms])
  next
    case False
    with m validDate_clamped [OF assms, of "month c + 1" "fullYear c"] show ?thesis
      by (simp add: addMonths_1 [OF assms])
  qed
qed

lemma addYears_unit:
  assumes "validDate c"
  shows "validDate (addYears c 1) \<and> msOfDay (addYears c 1) = msOfDay c
     \<and> fullYear c \<le> fullYear (addYears c 1) \<and> fullYear (addYears c 1) \<le> fullYear c + 1"
proof -
  from assms have m: "0 \<le> month c" "month c < 12"
    by (simp_all add: validDate_def)
  with validDate_clamped [OF assms m, of "fullYear c + 1"] show ?thesis
    by (simp add: addYears_1 [OF assms])
qed

lemma zoned_unit_zoned:
  assumes h: "- 720 \<le> host" "host \<le> 840"
    and d: "validDate d" "wholeSeconds d" "1984 \<le> fullYear d" "fullYear d \<le> 9996"
    and f: "\<And>c. validDate c \<Longrightarrow> validDate (f c) \<and> msOfDay (f c) = msOfDay c
              \<and> fullYear c \<le> fullYear (f c) \<and> fullYear (f c) \<le> fullYear c + 1"
  shows "\<exists>d'. formatZoned host (map_option f (map_option (toZonedTime host) (Some d))) = Inr (format d')
     \<and> parseDate (format d') = Some d'
     \<and> fullYear d - 2 \<le> fullYear d' \<and> fullYear d' \<le> fullYear d + 3"
proof -
  let ?c1 = "toZonedTime host d"
  let ?c2 = "f ?c1"
  let ?c3 = "toZonedTime host ?c2"
  note z1 = toZonedTime_step [OF d(1) h]
  from f [OF z1(1)] have c2: "validDate ?c2" "msOfDay ?c2 = msOfDay ?c1"
    "fullYear ?c1 \<le> fullYear ?c2" "fullYear ?c2 \<le> fullYear ?c1 + 1"
    by simp_all
  from z1(4) [OF d(2)] c2(2) have w2: "wholeSeconds ?c2"
    by (simp add: wholeSeconds_def)
  note z3 = toZonedTime_step [OF c2(1) h]
  have yr: "fullYear d - 2 \<le> fullYear ?c3" "fullYear ?c3 \<le> fullYear d + 3"
    using z1(2,3) c2(3,4) z3(2,3) by linarith+
  with d(3,4) have "1000 \<le> fullYear ?c3" "fullYear ?c3 \<le> 9999"
    by linarith+
  from parseDate_format [OF z3(1) z3(4) [OF w2] this] yr show ?thesis
    by (intro exI [of _ ?c3]) (simp add: formatZoned_def)
qed

lemma calculateNextDueDate_step:
  assumes p: "pattern \<in> {Some ''daily'', Some ''weekly'', Some ''monthly'', Some ''yearly''}"
    and h: "- 720 \<le> host" "host \<le> 840"
    and s: "parseDate s = Some d" and yr: "1984 \<le> fullYear d" "fullYear d \<le> 9996"
  shows "\<exists>d'. calculateNextDueDate engine host s pattern = Inr (format d')
     \<and> parseDate (format d') = Some d'
     \<and> fullYear d - 2 \<le> fullYear d' \<and> fullYear d' \<le> fullYear d + 3"
proof -
  note d = parseDate_Some [OF s]
  note s' = newDate_parseDate [OF s, of engine]
  from p consider "pattern = Some ''daily''" | "pattern = Some ''weekly''"
    | "pattern = Some ''monthly''" | "pattern = Some ''yearly''"
    by auto
  then show ?thesis
  proof cases
    case 1
    with zoned_unit_zoned [OF h d yr, of "\<lambda>c. addDays c 1"] show ?thesis
      by (simp add: calculateNextDueDate_def s' addDays_unit)
  next
    case 2
    with zoned_unit_zoned [OF h d yr, of "\<lambda>c. addWeeks c 1"] show ?thesis
      by (simp add: calculateNextDueDate_def s' addWeeks_unit)
  next
    case 3
    with zoned_unit_zoned [OF h d yr, of "\<lambda>c. addMonths c 1"] show ?thesis
      by (simp add: calculateNextDueDate_def s' addMonths_unit)
  next
    case 4
    with zoned_unit_zoned [OF h d yr, of "\<lambda>c. addYears c 1"] show ?thesis
      by (simp add: calculateNextDueDate_def s' addYears_unit)
  qed
qed

lemma occurrencesLoop_total:
  assumes p: "pattern \<in> {Some ''daily'', Some ''weekly'', Some ''monthly'', Some ''yearly''}"
    and h: "- 720 \<le> host" "host \<le> 840"
  shows "parseDate s = Some d \<Longrightarrow> 1984 + 2 * int k \<le> fullYear d \<Longrightarrow>
     fullYear d + 3 * int k \<le> 9999 \<Longrightarrow>
     \<exists>ys. occurrencesLoop engine host pattern k s acc = Inr ys"
proof (induction k arbitrary: s d acc)
  case 0
  then show ?case by simp
next
  case (Suc k)
  from Suc.prems have yr: "1984 \<le> fullYear d" "fullYear d \<le> 9996"
    by simp_all
  from calculateNextDueDate_step [OF p h Suc.prems(1) yr, of engine] obtain d' where
    step: "calculateNextDueDate engine host s pattern = Inr (format d')"
    and s': "parseDate (format d') = Some d'"
    and y': "fullYear d - 2 \<le> fullYear d'" "fullYear d' \<le> fullYear d + 3"
    by blast
  from Suc.prems y' have "1984 + 2 * int k \<le> fullYear d'" "fullYear d' + 3 * int k \<le> 9999"
    by simp_all
  from Suc.IH [OF s' this, of "acc @ [format d']"] step show ?case
    by simp
qed

text \<open>
  For one of the four patterns and a start date of the forms that \<open>parseDate\<close> reads, on
  a host between UTC-12 and UTC+14 and with a start year that keeps every occurrence
  between 1982 and 9999, no call of \<open>calculateNextDueDate\<close> throws, and
  \<open>calculateNextOccurrences\<close> returns a list as long as the count.
\<close>

lemma calculateNextOccurrences_total:
  assumes "1 \<le> n"
    and "pattern \<in> {Some ''daily'', Some ''weekly'', Some ''monthly'', Some ''yearly''}"
    and "- 720 \<le> host" "host \<le> 840"
    and "parseDate startDate = Some d"
    and "1982 + 2 * n \<le> fullYear d" "fullYear d + 3 * (n - 1) \<le> 9999"
  shows "\<exists>xs. calculateNextOccurrences engine host startDate pattern n = Inr xs \<and>
     int (length xs) = n"
proof -
  have k: "int (nat (n - 1)) = n - 1"
    using assms(1) by simp
  from assms(6) have "1984 + 2 * int (nat (n - 1)) \<le> fullYear d"
    unfolding k by simp
  moreover from assms(7) have "fullYear d + 3 * int (nat (n - 1)) \<le> 9999"
    unfolding k by simp
  ultimately obtain xs where
    xs: "calculateNextOccurrences engine host startDate pattern n = Inr xs"
    using occurrencesLoop_total [OF assms(2-5), of "nat (n - 1)" engine "[startDate]"]
    unfolding calculateNextOccurrences_def by blast
  then have "int (length xs) = max 1 n"
    unfolding calculateNextOccurrences_iff by blast
  with xs assms(1) show ?thesis
    by auto
qed

subsection \<open>The next due date and the host's time zone\<close>

text \<open>
  On a host whose local time is Singapore's, \<open>toZonedTime\<close> leaves the fields of a date
  as they are, and the next due date is the calendar step on the fields of the due date
  (of 1982 or later, since when the offset of Singapore is the one of the model):
  the time of day stays, and the day of the month is kept or clamped to the last day of
  the shorter month.
\<close>

lemma calculateNextDueDate_singapore_host_monthly:
  assumes "parseDate s = Some d" and "1982 \<le> fullYear d"
  shows "calculateNextDueDate engine 480 s (Some ''monthly'') = Inr (format (addMonths d 1))"
    and "msOfDay (addMonths d 1) = msOfDay d"
proof -
  from parseDate_Some(1) [OF assms(1)] have v: "validDate d" .
  from addMonths_unit [OF v] have v': "validDate (addMonths d 1)"
    and ms: "msOfDay (addMonths d 1) = msOfDay d"
    by simp_all
  show "calculateNextDueDate engine 480 s (Some ''monthly'') = Inr (format (addMonths d 1))"
    by (simp add: calculateNextDueDate_def newDate_parseDate [OF assms(1)] formatZoned_def
        toZonedTime_singapore_host [OF v] toZonedTime_singapore_host [OF v'])
  show "msOfDay (addMonths d 1) = msOfDay d"
    by (rule ms)
qed

lemma calculateNextDueDate_singapore_host_examples:
  "calculateNextDueDate engine 480 ''2026-01-31T17:00'' (Some ''monthly'') = Inr ''2026-02-28 17:00:00''"
  "calculateNextDueDate engine 480 ''2026-02-28T17:00'' (Some ''monthly'') = Inr ''2026-03-28 17:00:00''"
  "calculateNextDueDate engine 480 ''2026-02-10T14:00'' (Some ''weekly'') = Inr ''2026-02-17 14:00:00''"
  by code_simp+

text \<open>
  C1. The claim asks for \<open>2026-02-28T17:00\<close> as the next monthly due date of
  \<open>2026-01-31T17:00\<close>. On a host whose local time is UTC, \<open>new Date\<close> reads the due date
  as 17:00 UTC, \<open>toZonedTime\<close> moves it to 1 February 01:00, \<open>addMonths\<close> to 1 March 01:00,
  and the second \<open>toZonedTime\<close> to 1 March 09:00: neither the day nor the time of day
  is the one the claim states.
\<close>

theorem calculateNextDueDate_month_end_utc_host:
  "calculateNextDueDate engine 0 ''2026-01-31T17:00'' (Some ''monthly'') = Inr ''2026-03-01 09:00:00''"
  by code_simp

section \<open>Properties of the recurrence advancement\<close>

lemma ident_applyUpdate [simp]: "ident (applyUpdate u t) = ident t"
  by (simp add: applyUpdate_def)

lemma todoDB_update_Inr:
  assumes "todoDB_update db i u = Inr (db', r)"
  shows "db' = db\<lparr>todos_table :=
                   map (\<lambda>t. if ident t = i then applyUpdate u t else t) (todos_table db)\<rparr>"
    and "r = todoDB_findById db' i"
    and "u_due_date u \<noteq> Some Unbindable" "u_reminder_minutes u \<noteq> Some Unbindable"
    and "todoDB_findById db i \<noteq> None \<Longrightarrow> u_due_date u \<noteq> Some Null"
  using assms by (auto simp: todoDB_update_def Let_def split: if_splits)

lemma todoDB_update_binds:
  assumes "u_due_date u \<noteq> Some Unbindable" "u_reminder_minutes u \<noteq> Some Unbindable"
    "u_due_date u \<noteq> Some Null"
  shows "\<exists>db' r. todoDB_update db i u = Inr (db', r)"
  using assms by (simp add: todoDB_update_def Let_def)

lemma fold_copySubtask:
  "\<exists>copies. subtasks_table (fold (copySubtask ts newId) xs db) = subtasks_table db @ copies \<and>
     map (\<lambda>s. (sub_todo_id s, sub_title s, sub_position s, sub_completed s)) copies
       = map (\<lambda>s. (newId, trim (sub_title s), sub_position s, 0)) xs \<and>
     todos_table (fold (copySubtask ts newId) xs db) = todos_table db \<and>
     todo_tags_table (fold (copySubtask ts newId) xs db) = todo_tags_table db \<and>
     todos_seq (fold (copySubtask ts newId) xs db) = todos_seq db"
proof (induction xs arbitrary: db)
  case Nil
  show ?case by simp
next
  case (Cons x xs)
  let ?db1 = "copySubtask ts newId x db"
  from Cons.IH [of ?db1] obtain copies where
    c: "subtasks_table (fold (copySubtask ts newId) xs ?db1) = subtasks_table ?db1 @ copies"
      "map (\<lambda>s. (sub_todo_id s, sub_title s, sub_position s, sub_completed s)) copies
         = map (\<lambda>s. (newId, trim (sub_title s), sub_position s, 0)) xs"
      "todos_table (fold (copySubtask ts newId) xs ?db1) = todos_table ?db1"
      "todo_tags_table (fold (copySubtask ts newId) xs ?db1) = todo_tags_table ?db1"
      "todos_seq (fold (copySubtask ts newId) xs ?db1) = todos_seq ?db1"
    by blast
  obtain row where row: "subtasks_table ?db1 = subtasks_table db @ [row]"
    "sub_todo_id row = newId" "sub_title row = trim (sub_title x)"
    "sub_position row = sub_position x" "sub_completed row = 0"
    "todos_table ?db1 = todos_table db" "todo_tags_table ?db1 = todo_tags_table db"
    "todos_seq ?db1 = todos_seq db"
    by (simp add: copySubtask_def subtaskDB_create_def Let_def)
  show ?case
    by (rule exI [of _ "row # copies"]) (simp add: c row)
qed

lemma truthy_orNullString: "truthyString x \<Longrightarrow> orNullString x = x"
  by (auto simp: truthyString_def orNullString_def split: option.splits)

lemma createRecurringInstance_effect:
  assumes "truthyString (recurrence_pattern p)"
    and "calculateNextDueDate engine host (due_date p) (recurrence_pattern p) = Inr nd"
  shows "\<exists>db' copies.
     createRecurringInstance engine host ts db p = Inr (db', nextInstance ts db p nd) \<and>
     todos_table db' = todos_table db @ [nextInstance ts db p nd] \<and>
     todo_tags_table db' = todo_tags_table db
        @ map (\<lambda>r. \<lparr>tt_todo_id = todos_seq db + 1, tt_tag_id = tt_tag_id r, tt_created_at = ts\<rparr>)
            (filter (\<lambda>r. tt_todo_id r = ident p) (todo_tags_table db)) \<and>
     subtasks_table db' = subtasks_table db @ copies \<and>
     map (\<lambda>s. (sub_todo_id s, sub_title s, sub_position s, sub_completed s)) copies
       = map (\<lambda>s. (todos_seq db + 1, trim (sub_title s), sub_position s, 0))
           (subtaskDB_findByTodo db (ident p))"
proof -
  let ?new = "nextInstance ts db p nd"
  let ?db1 = "db\<lparr>todos_table := todos_table db @ [?new], todos_seq := todos_seq db + 1\<rparr>"
  let ?db2 = "copyTags ts ?db1 (ident ?new) (ident p)"
  let ?xs = "subtaskDB_findByTodo ?db2 (ident p)"
  let ?db3 = "fold (copySubtask ts (ident ?new)) ?xs ?db2"
  have create: "todoDB_create ts db
      \<lparr>c_user_id = user_id p, c_title = title p, c_due_date = nd, c_priority = Some (priority p),
       c_recurrence_pattern = recurrence_pattern p, c_reminder_minutes = reminder_minutes p\<rparr>
      = (?db1, ?new)"
    using assms(1) by (simp add: todoDB_create_def nextInstance_def truthy_orNullString Let_def)
  have run: "createRecurringInstance engine host ts db p = Inr (?db3, ?new)"
    using assms by (simp add: createRecurringInstance_def create Let_def)
  have xs: "?xs = subtaskDB_findByTodo db (ident p)"
    by (simp add: subtaskDB_findByTodo_def copyTags_def)
  from fold_copySubtask [of ts "ident ?new" ?xs ?db2] obtain copies where
    c: "subtasks_table ?db3 = subtasks_table ?db2 @ copies"
      "map (\<lambda>s. (sub_todo_id s, sub_title s, sub_position s, sub_completed s)) copies
         = map (\<lambda>s. (ident ?new, trim (sub_title s), sub_position s, 0)) ?xs"
      "todos_table ?db3 = todos_table ?db2" "todo_tags_table ?db3 = todo_tags_table ?db2"
    by blast
  have id: "ident ?new = todos_seq db + 1"
    by (simp add: nextInstance_def)
  show ?thesis
    apply (rule exI [of _ ?db3], rule exI [of _ copies])
    using c run xs id by (simp add: copyTags_def)
qed

lemma createRecurringInstance_Inr:
  assumes "createRecurringInstance engine host ts db p = Inr (db', new)"
  shows "truthyString (recurrence_pattern p) \<and>
     (\<exists>nd. calculateNextDueDate engine host (due_date p) (recurrence_pattern p) = Inr nd \<and>
        new = nextInstance ts db p nd)"
  using assms
  by (auto simp: createRecurringInstance_def Let_def todoDB_create_def nextInstance_def
      truthy_orNullString split: if_splits sum.splits prod.splits)

lemma find_map_ident:
  "(\<And>t. ident (f t) = ident t) \<Longrightarrow>
   find (\<lambda>t. ident t = i) (map f xs) = map_option f (find (\<lambda>t. ident t = i) xs)"
  by (induction xs) auto

lemma find_append_Some:
  "find P xs = Some x \<Longrightarrow> find P (xs @ ys) = Some x"
  by (induction xs) (auto split: if_splits)

lemma findById_Some:
  "todoDB_findById db i = Some t \<Longrightarrow> t \<in> set (todos_table db) \<and> ident t = i"
  by (auto simp: todoDB_findById_def find_Some_iff)

lemma wf_no_rows_for_new:
  assumes "wf_db db"
  shows "filter (\<lambda>s. sub_todo_id s = todos_seq db + 1) (subtasks_table db) = []"
    and "filter (\<lambda>r. tt_todo_id r = todos_seq db + 1) (todo_tags_table db) = []"
  using assms by (force simp: wf_db_def filter_empty_conv)+

text \<open>The update that \<open>PUT\<close> hands to the store when the request completes the todo.\<close>

lemma putHandleCompletion_completing:
  assumes "b_completed body = Some 1" "completed old = 0" "truthyString (recurrence_pattern old)"
  shows "putHandleCompletion engine host ts clock db old body (putUpdateData body) =
     (case createRecurringInstance engine host ts db old of
        Inl e \<Rightarrow> Inl e
      | Inr (db1, nextTodo) \<Rightarrow>
          Inr (db1,
               (putUpdateData body)
                 \<lparr>u_completed := Some 1,
                  u_completed_at :=
                    Some (Some (formatSingaporeDate host (getSingaporeNow host clock)))\<rparr>,
               Some nextTodo))"
  using assms
  by (simp add: putHandleCompletion_def Let_def split: sum.splits)

lemma PUT_accepted:
  assumes "todoDB_findById db todoId = Some old" "user_id old = userId"
  shows "PUT engine host ts clock (Some userId) db (Some todoId) body =
     (case putValidation body of
        Some (status, message) \<Rightarrow> (db, Failure status message)
      | None \<Rightarrow>
          (case putHandleCompletion engine host ts clock db old body (putUpdateData body) of
             Inl e \<Rightarrow> (db, Failure 500 ''Failed to update todo'')
           | Inr (db1, updateData, nextTodo) \<Rightarrow>
               (case todoDB_update db1 todoId updateData of
                  Inl e \<Rightarrow> (db1, Failure 500 ''Failed to update todo'')
                | Inr (db2, updatedTodo) \<Rightarrow>
                    (db2, Success \<lparr>resp_todo = updatedTodo, resp_next_todo = nextTodo\<rparr>))))"
  using assms by (simp add: PUT_def)

lemma PUT_completing_Success:
  assumes old: "todoDB_findById db todoId = Some old" "user_id old = userId"
    and c: "b_completed body = Some 1" "completed old = 0" "truthyString (recurrence_pattern old)"
    and put: "PUT engine host ts clock (Some userId) db (Some todoId) body = (db', Success payload)"
  shows "\<exists>db1 new.
     createRecurringInstance engine host ts db old = Inr (db1, new) \<and>
     todoDB_update db1 todoId
       ((putUpdateData body)
          \<lparr>u_completed := Some 1,
           u_completed_at := Some (Some (formatSingaporeDate host (getSingaporeNow host clock)))\<rparr>)
       = Inr (db', resp_todo payload) \<and>
     resp_next_todo payload = Some new"
  using put
  unfolding PUT_accepted [OF old] putHandleCompletion_completing [OF c]
  by (auto split: option.splits sum.splits prod.splits)

lemma sampleDB_wf: "wf_db sampleDB"
  by (simp add: wf_db_def sampleDB_def sampleTodo_def)

lemma applyUpdate_completion:
  "completed (applyUpdate (u\<lparr>u_completed := Some 1, u_completed_at := Some (Some stamp)\<rparr>) t) = 1"
  "completed_at (applyUpdate (u\<lparr>u_completed := Some 1, u_completed_at := Some (Some stamp)\<rparr>) t)
     = Some stamp"
  by (simp_all add: applyUpdate_def orElse_def)

lemma applyUpdate_toggle:
  "applyUpdate ((putUpdateData (noBody\<lparr>b_completed := Some 1\<rparr>))
                  \<lparr>u_completed := Some 1, u_completed_at := Some (Some stamp)\<rparr>) t
     = t\<lparr>completed := 1, completed_at := Some stamp\<rparr>"
  by (simp add: applyUpdate_def orElse_def putUpdateData_def noBody_def noUpdate_def)

lemma same_ident:
  assumes "wf_db db" "todoDB_findById db i = Some old" "t \<in> set (todos_table db)" "ident t = i"
  shows "t = old"
proof -
  from assms(1) have "inj_on ident (set (todos_table db))"
    by (simp add: wf_db_def distinct_map)
  moreover from findById_Some [OF assms(2)] have "old \<in> set (todos_table db)" "ident old = i"
    by simp_all
  ultimately show ?thesis
    using assms(3,4) by (auto dest: inj_onD)
qed

text \<open>
  C2, as amended. A request that completes a recurring todo (\<open>completed = 1\<close> on a todo
  with \<open>completed = 0\<close> and a recurrence pattern) and succeeds creates exactly one new
  todo: the title of the old todo with surrounding white space trimmed, the same
  priority, pattern and reminder lead time (a lead time of 0 becomes \<open>null\<close>), the due
  date \<open>calculateNextDueDate\<close> gives for the old due date and pattern, \<open>completed = 0\<close>
  and \<open>last_notification_sent = null\<close>. The new todo has the tag ids of the old one,
  and one subtask for each subtask of the old one, with the trimmed title, the same
  position and \<open>completed = 0\<close>. The tags and subtasks of every other todo, the
  completed one included, are unchanged, and the rows of the other todos too. The
  completed todo is stored with \<open>completed = 1\<close> and the time of completion; a request
  that carries nothing but \<open>completed = 1\<close> changes nothing else in it. The request
  succeeds whenever its body passes the checks of the handler, the next due date can
  be computed, and the values it carries for \<open>due_date\<close> and \<open>reminder_minutes\<close> can be
  stored (no \<open>null\<close> due date, no value that cannot be bound).
\<close>

theorem recurring_completion_creates_next:
  assumes wf: "wf_db db"
    and old: "todoDB_findById db todoId = Some old" "user_id old = userId"
    and comp: "b_completed body = Some 1" "completed old = 0"
      "truthyString (recurrence_pattern old)"
  shows
    "(PUT engine host ts clock (Some userId) db (Some todoId) body = (db', Success payload) \<longrightarrow>
        (\<exists>nd new updated.
           calculateNextDueDate engine host (due_date old) (recurrence_pattern old) = Inr nd \<and>
           new = \<lparr>ident = todos_seq db + 1, user_id = user_id old, title = trim (title old),
                   due_date = nd, priority = priority old, completed = 0, completed_at = None,
                   recurrence_pattern = recurrence_pattern old,
                   reminder_minutes = orNullNumber (reminder_minutes old),
                   last_notification_sent = None, created_at = ts\<rparr> \<and>
           resp_next_todo payload = Some new \<and>
           resp_todo payload = Some updated \<and>
           ident updated = todoId \<and> completed updated = 1 \<and>
           completed_at updated = Some (formatSingaporeDate host (getSingaporeNow host clock)) \<and>
           (body = noBody\<lparr>b_completed := Some 1\<rparr> \<longrightarrow>
              updated = old\<lparr>completed := 1,
                            completed_at :=
                              Some (formatSingaporeDate host (getSingaporeNow host clock))\<rparr>) \<and>
           todos_table db'
             = map (\<lambda>t. if ident t = todoId then updated else t) (todos_table db) @ [new] \<and>
           tagIdsOf db' (todos_seq db + 1) = tagIdsOf db todoId \<and>
           image_mset (\<lambda>s. (sub_title s, sub_position s, sub_completed s))
               (mset (subtaskDB_findByTodo db' (todos_seq db + 1)))
             = image_mset (\<lambda>s. (trim (sub_title s), sub_position s, 0))
                 (mset (subtaskDB_findByTodo db todoId)) \<and>
           (\<forall>i. i \<noteq> todos_seq db + 1 \<longrightarrow>
              tagIdsOf db' i = tagIdsOf db i \<and>
              subtaskDB_findByTodo db' i = subtaskDB_findByTodo db i)))
     \<and> (putValidation body = None \<and> b_due_date body \<noteq> Some Null \<and>
          b_due_date body \<noteq> Some Unbindable \<and> b_reminder_minutes body \<noteq> Some Unbindable \<and>
          calculateNextDueDate engine host (due_date old) (recurrence_pattern old) = Inr nd' \<longrightarrow>
          (\<exists>db' payload.
             PUT engine host ts clock (Some userId) db (Some todoId) body = (db', Success payload)))"
proof (intro conjI impI)
  let ?stamp = "formatSingaporeDate host (getSingaporeNow host clock)"
  let ?u = "(putUpdateData body)\<lparr>u_completed := Some 1, u_completed_at := Some (Some ?stamp)\<rparr>"
  let ?n = "todos_seq db + 1"
  assume put: "PUT engine host ts clock (Some userId) db (Some todoId) body = (db', Success payload)"
  from PUT_completing_Success [OF old comp put] obtain db1 new where
    run: "createRecurringInstance engine host ts db old = Inr (db1, new)"
    and upd: "todoDB_update db1 todoId ?u = Inr (db', resp_todo payload)"
    and nxt: "resp_next_todo payload = Some new"
    by blast
  from createRecurringInstance_Inr [OF run] obtain nd where
    nd: "calculateNextDueDate engine host (due_date old) (recurrence_pattern old) = Inr nd"
    and new: "new = nextInstance ts db old nd"
    by blast
  let ?updated = "applyUpdate ?u old"
  from findById_Some [OF old(1)] have mem: "old \<in> set (todos_table db)" and oid: "ident old = todoId"
    by simp_all
  from wf mem oid have fresh: "todoId \<noteq> ?n"
    by (force simp: wf_db_def)
  from createRecurringInstance_effect [OF comp(3) nd, of ts db] run new obtain copies where
    t1: "todos_table db1 = todos_table db @ [new]"
    and g1: "todo_tags_table db1 = todo_tags_table db
        @ map (\<lambda>r. \<lparr>tt_todo_id = ?n, tt_tag_id = tt_tag_id r, tt_created_at = ts\<rparr>)
            (filter (\<lambda>r. tt_todo_id r = ident old) (todo_tags_table db))"
    and s1: "subtasks_table db1 = subtasks_table db @ copies"
    and c1: "map (\<lambda>s. (sub_todo_id s, sub_title s, sub_position s, sub_completed s)) copies
       = map (\<lambda>s. (?n, trim (sub_title s), sub_position s, 0)) (subtaskDB_findByTodo db (ident old))"
    by auto
  note u = todoDB_update_Inr(1,2) [OF upd]
  have newid: "ident new = ?n"
    by (simp add: new nextInstance_def)
  have tabs: "subtasks_table db' = subtasks_table db1" "todo_tags_table db' = todo_tags_table db1"
    by (subst u(1), simp)+
  have "map (\<lambda>t. if ident t = todoId then applyUpdate ?u t else t) (todos_table db)
      = map (\<lambda>t. if ident t = todoId then ?updated else t) (todos_table db)"
    using same_ident [OF wf old(1)] by (intro map_cong refl) auto
  then have tab: "todos_table db'
      = map (\<lambda>t. if ident t = todoId then ?updated else t) (todos_table db) @ [new]"
    using fresh by (subst u(1)) (simp add: t1 newid)
  have "todoDB_findById db1 todoId = Some old"
    using old(1) by (simp add: todoDB_findById_def t1 find_append_Some)
  then have "todoDB_findById db' todoId = Some ?updated"
    by (subst u(1)) (simp add: todoDB_findById_def find_map_ident oid)
  with u(2) have resp: "resp_todo payload = Some ?updated"
    by simp
  have copies_id: "\<forall>s \<in> set copies. sub_todo_id s = ?n"
  proof
    fix s assume "s \<in> set copies"
    then have "(sub_todo_id s, sub_title s, sub_position s, sub_completed s)
        \<in> set (map (\<lambda>s. (sub_todo_id s, sub_title s, sub_position s, sub_completed s)) copies)"
      by simp
    then show "sub_todo_id s = ?n"
      unfolding c1 by auto
  qed
  have fnew: "filter (\<lambda>s. sub_todo_id s = ?n) (subtasks_table db') = copies"
    using wf_no_rows_for_new(1) [OF wf] copies_id by (simp add: tabs s1 filter_id_conv)
  have "image_mset (\<lambda>s. (sub_title s, sub_position s, sub_completed s)) (mset copies)
      = image_mset (\<lambda>s. (trim (sub_title s), sub_position s, 0))
          (mset (subtaskDB_findByTodo db todoId))"
  proof -
    have "map (\<lambda>s. (sub_title s, sub_position s, sub_completed s)) copies
        = map snd (map (\<lambda>s. (sub_todo_id s, sub_title s, sub_position s, sub_completed s)) copies)"
      by (simp add: o_def)
    also have "\<dots> = map (\<lambda>s. (trim (sub_title s), sub_position s, 0)) (subtaskDB_findByTodo db todoId)"
      unfolding c1 by (simp add: o_def oid)
    finally have "mset (map (\<lambda>s. (sub_title s, sub_position s, sub_completed s)) copies)
        = mset (map (\<lambda>s. (trim (sub_title s), sub_position s, 0)) (subtaskDB_findByTodo db todoId))"
      by (rule arg_cong)
    then show ?thesis
      by (simp only: mset_map)
  qed
  moreover have "mset (subtaskDB_findByTodo db' ?n) = mset copies"
    by (simp only: subtaskDB_findByTodo_def fnew mset_sort)
  ultimately have subs: "image_mset (\<lambda>s. (sub_title s, sub_position s, sub_completed s))
         (mset (subtaskDB_findByTodo db' ?n))
       = image_mset (\<lambda>s. (trim (sub_title s), sub_position s, 0))
           (mset (subtaskDB_findByTodo db todoId))"
    by (simp only:)
  have tags: "tagIdsOf db' ?n = tagIdsOf db todoId"
    using wf_no_rows_for_new(2) [OF wf]
    by (simp add: tagIdsOf_def tabs g1 oid o_def filter_map)
  have others: "\<forall>i. i \<noteq> ?n \<longrightarrow>
        tagIdsOf db' i = tagIdsOf db i \<and> subtaskDB_findByTodo db' i = subtaskDB_findByTodo db i"
  proof (intro allI impI)
    fix i assume i: "i \<noteq> ?n"
    have "filter (\<lambda>s. sub_todo_id s = i) copies = []"
      using copies_id i by (auto simp: filter_empty_conv)
    then show "tagIdsOf db' i = tagIdsOf db i \<and> subtaskDB_findByTodo db' i = subtaskDB_findByTodo db i"
      using i by (simp add: tagIdsOf_def tabs g1 subtaskDB_findByTodo_def s1 filter_map o_def)
  qed
  have new': "new = \<lparr>ident = todos_seq db + 1, user_id = user_id old, title = trim (title old),
                   due_date = nd, priority = priority old, completed = 0, completed_at = None,
                   recurrence_pattern = recurrence_pattern old,
                   reminder_minutes = orNullNumber (reminder_minutes old),
                   last_notification_sent = None, created_at = ts\<rparr>"
    by (simp add: new nextInstance_def)
  have upd1: "ident ?updated = todoId" "completed ?updated = 1" "completed_at ?updated = Some ?stamp"
    by (simp_all add: oid applyUpdate_completion)
  have toggle: "body = noBody\<lparr>b_completed := Some 1\<rparr> \<longrightarrow>
      ?updated = old\<lparr>completed := 1, completed_at := Some ?stamp\<rparr>"
    by (auto simp only: applyUpdate_toggle)
  show "\<exists>nd new updated.
           calculateNextDueDate engine host (due_date old) (recurrence_pattern old) = Inr nd \<and>
           new = \<lparr>ident = todos_seq db + 1, user_id = user_id old, title = trim (title old),
                   due_date = nd, priority = priority old, completed = 0, completed_at = None,
                   recurrence_pattern = recurrence_pattern old,
                   reminder_minutes = orNullNumber (reminder_minutes old),
                   last_notification_sent = None, created_at = ts\<rparr> \<and>
           resp_next_todo payload = Some new \<and>
           resp_todo payload = Some updated \<and>
           ident updated = todoId \<and> completed updated = 1 \<and>
           completed_at updated = Some ?stamp \<and>
           (body = noBody\<lparr>b_completed := Some 1\<rparr> \<longrightarrow>
              updated = old\<lparr>completed := 1, completed_at := Some ?stamp\<rparr>) \<and>
           todos_table db'
             = map (\<lambda>t. if ident t = todoId then updated else t) (todos_table db) @ [new] \<and>
           tagIdsOf db' (todos_seq db + 1) = tagIdsOf db todoId \<and>
           image_mset (\<lambda>s. (sub_title s, sub_position s, sub_completed s))
               (mset (subtaskDB_findByTodo db' (todos_seq db + 1)))
             = image_mset (\<lambda>s. (trim (sub_title s), sub_position s, 0))
                 (mset (subtaskDB_findByTodo db todoId)) \<and>
           (\<forall>i. i \<noteq> todos_seq db + 1 \<longrightarrow>
              tagIdsOf db' i = tagIdsOf db i \<and>
              subtaskDB_findByTodo db' i = subtaskDB_findByTodo db i)"
    by (rule exI [of _ nd], rule exI [of _ new], rule exI [of _ ?updated])
      (intro conjI nd new' nxt resp upd1 toggle tab tags subs others)
next
  let ?stamp = "formatSingaporeDate host (getSingaporeNow host clock)"
  let ?u = "(putUpdateData body)\<lparr>u_completed := Some 1, u_completed_at := Some (Some ?stamp)\<rparr>"
  assume a: "putValidation body = None \<and> b_due_date body \<noteq> Some Null \<and>
          b_due_date body \<noteq> Some Unbindable \<and> b_reminder_minutes body \<noteq> Some Unbindable \<and>
          calculateNextDueDate engine host (due_date old) (recurrence_pattern old) = Inr nd'"
  then have nd: "calculateNextDueDate engine host (due_date old) (recurrence_pattern old) = Inr nd'"
    by blast
  from createRecurringInstance_effect [OF comp(3) nd, of ts db] obtain db1 where
    run: "createRecurringInstance engine host ts db old = Inr (db1, nextInstance ts db old nd')"
    by blast
  have "u_due_date ?u \<noteq> Some Unbindable" "u_reminder_minutes ?u \<noteq> Some Unbindable"
    "u_due_date ?u \<noteq> Some Null"
    using a by (simp_all add: putUpdateData_def)
  from todoDB_update_binds [OF this, of db1 todoId] obtain db2 r where
    "todoDB_update db1 todoId ?u = Inr (db2, r)"
    by blast
  with a run show "\<exists>db' payload.
      PUT engine host ts clock (Some userId) db (Some todoId) body = (db', Success payload)"
    by (simp add: PUT_accepted [OF old] putHandleCompletion_completing [OF comp])
qed

lemma sampleTodo_next:
  "calculateNextDueDate engine 480 (due_date sampleTodo) (recurrence_pattern sampleTodo)
     = Inr ''2026-02-17 14:00:00''"
  by code_simp

theorem recurring_completion_creates_next_witness:
  "wf_db sampleDB
   \<and> todoDB_findById sampleDB 1 = Some sampleTodo
   \<and> completed sampleTodo = 0 \<and> truthyString (recurrence_pattern sampleTodo)
   \<and> (\<exists>db' payload updated.
         PUT noOtherForm 480 ''2026-02-10 05:00:00'' (clockAt 13 0) (Some 1) sampleDB (Some 1)
             (noBody\<lparr>b_completed := Some 1\<rparr>)
           = (db', Success payload)
         \<and> resp_next_todo payload =
             Some \<lparr>ident = 2, user_id = 1, title = ascii ''Team meeting'',
                    due_date = ''2026-02-17 14:00:00'', priority = Medium, completed = 0,
                    completed_at = None, recurrence_pattern = Some ''weekly'',
                    reminder_minutes = Some 60, last_notification_sent = None,
                    created_at = ''2026-02-10 05:00:00''\<rparr>
         \<and> resp_todo payload = Some updated \<and> completed updated = 1
         \<and> tagIdsOf db' 2 = tagIdsOf sampleDB 1
         \<and> image_mset (\<lambda>s. (sub_title s, sub_position s, sub_completed s))
              (mset (subtaskDB_findByTodo db' 2))
            = image_mset (\<lambda>s. (trim (sub_title s), sub_position s, 0))
                (mset (subtaskDB_findByTodo sampleDB 1)))"
proof -
  let ?body = "noBody\<lparr>b_completed := Some 1\<rparr>"
  let ?ts = "''2026-02-10 05:00:00''"
  have old: "todoDB_findById sampleDB 1 = Some sampleTodo" "user_id sampleTodo = 1"
    by (simp_all add: todoDB_findById_def sampleDB_def sampleTodo_def)
  have comp: "b_completed ?body = Some 1" "completed sampleTodo = 0"
    "truthyString (recurrence_pattern sampleTodo)"
    by (simp_all add: sampleTodo_def truthyString_def)
  have body: "putValidation ?body = None \<and> b_due_date ?body \<noteq> Some Null \<and>
      b_due_date ?body \<noteq> Some Unbindable \<and> b_reminder_minutes ?body \<noteq> Some Unbindable \<and>
      calculateNextDueDate noOtherForm 480 (due_date sampleTodo) (recurrence_pattern sampleTodo)
        = Inr ''2026-02-17 14:00:00''"
    by (simp add: putValidation_def noBody_def sampleTodo_next)
  note inst = recurring_completion_creates_next [OF sampleDB_wf old comp,
      of noOtherForm 480 ?ts "clockAt 13 0"]
  from inst [of _ _ "''2026-02-17 14:00:00''"] body obtain db' payload where
    put: "PUT noOtherForm 480 ?ts (clockAt 13 0) (Some 1) sampleDB (Some 1) ?body
      = (db', Success payload)"
    by blast
  from inst [of db' payload] put obtain nd new updated where
    r: "calculateNextDueDate noOtherForm 480 (due_date sampleTodo) (recurrence_pattern sampleTodo)
          = Inr nd"
      "new = \<lparr>ident = todos_seq sampleDB + 1, user_id = user_id sampleTodo,
               title = trim (title sampleTodo), due_date = nd, priority = priority sampleTodo,
               completed = 0, completed_at = None,
               recurrence_pattern = recurrence_pattern sampleTodo,
               reminder_minutes = orNullNumber (reminder_minutes sampleTodo),
               last_notification_sent = None, created_at = ?ts\<rparr>"
      "resp_next_todo payload = Some new"
      "resp_todo payload = Some updated" "completed updated = 1"
      "tagIdsOf db' (todos_seq sampleDB + 1) = tagIdsOf sampleDB 1"
      "image_mset (\<lambda>s. (sub_title s, sub_position s, sub_completed s))
           (mset (subtaskDB_findByTodo db' (todos_seq sampleDB + 1)))
         = image_mset (\<lambda>s. (trim (sub_title s), sub_position s, 0))
             (mset (subtaskDB_findByTodo sampleDB 1))"
    by blast
  from r(1) have nd: "nd = ''2026-02-17 14:00:00''"
    by (simp add: sampleTodo_next)
  have seq: "todos_seq sampleDB + 1 = 2"
    by (simp add: sampleDB_def)
  have t: "trim (title sampleTodo) = ascii ''Team meeting''"
    by code_simp
  have new: "new = \<lparr>ident = 2, user_id = 1, title = ascii ''Team meeting'',
                    due_date = ''2026-02-17 14:00:00'', priority = Medium, completed = 0,
                    completed_at = None, recurrence_pattern = Some ''weekly'',
                    reminder_minutes = Some 60, last_notification_sent = None,
                    created_at = ''2026-02-10 05:00:00''\<rparr>"
    unfolding r(2) nd seq t by (simp add: sampleTodo_def orNullNumber_def)
  show ?thesis
    using sampleDB_wf old(1) comp(2,3) put r(3-7) new unfolding seq by blast
qed

text \<open>
  The claim as stated, with every subtask copied by title, fails where the title of a
  subtask starts or ends with white space (\<open>PUT /api/subtasks/[id]\<close> stores a title as it
  is sent): \<open>subtaskDB.create\<close> trims the title of the copy, of a blank as of a no-break
  space.
\<close>

theorem recurring_completion_subtask_title_counterexample:
  "map sub_title
     (subtaskDB_findByTodo
        (fst (PUT noOtherForm 480 ''2026-02-10 05:00:00'' (clockAt 13 0) (Some 1) sampleDB (Some 1)
                (noBody\<lparr>b_completed := Some 1\<rparr>))) 2)
     = [ascii ''Book room'', ascii ''Send agenda'', ascii ''Print slides'']
   \<and> map sub_title (subtaskDB_findByTodo sampleDB 1)
     = [ascii ''Book room'', ascii '' Send agenda'', 0x00A0 # ascii ''Print slides'']"
  by code_simp

text \<open>
  C6. The claim has a todo spawned exactly when a recurring todo goes from pending to
  completed. The handler compares \<open>body.completed\<close> with 1 and stores whatever number
  it was sent, where the handler of subtasks refuses a value other than 0 and 1: with
  \<open>completed = 2\<close> the todo is stored as completed (it leaves the pending list of its
  user, and the evaluator of reminders skips it) and no todo is spawned. And the handler
  spawns before it updates: when the update then throws, as with a \<open>null\<close> due date,
  the answer is 500, the next instance is in the store and the todo is still pending.
\<close>

theorem completion_without_spawn_and_spawn_without_completion:
  "PUT engine 480 ''2026-02-10 05:00:00'' (clockAt 13 0) (Some 1) sampleDB (Some 1)
       (noBody\<lparr>b_completed := Some 2\<rparr>)
     = (sampleDB\<lparr>todos_table := [sampleTodo\<lparr>completed := 2\<rparr>]\<rparr>,
        Success \<lparr>resp_todo = Some (sampleTodo\<lparr>completed := 2\<rparr>), resp_next_todo = None\<rparr>)
   \<and> todoDB_findByUser (sampleDB\<lparr>todos_table := [sampleTodo\<lparr>completed := 2\<rparr>]\<rparr>) 1 = []
   \<and> snd (PUT engine 480 ''2026-02-10 05:00:00'' (clockAt 13 0) (Some 1) sampleDB (Some 1)
            (noBody\<lparr>b_completed := Some 1, b_due_date := Some Null\<rparr>))
     = Failure 500 ''Failed to update todo''
   \<and> todos_table
        (fst (PUT engine 480 ''2026-02-10 05:00:00'' (clockAt 13 0) (Some 1) sampleDB (Some 1)
                (noBody\<lparr>b_completed := Some 1, b_due_date := Some Null\<rparr>)))
     = [sampleTodo,
        \<lparr>ident = 2, user_id = 1, title = ascii ''Team meeting'',
         due_date = ''2026-02-17 14:00:00'', priority = Medium, completed = 0,
         completed_at = None, recurrence_pattern = Some ''weekly'',
         reminder_minutes = Some 60, last_notification_sent = None,
         created_at = ''2026-02-10 05:00:00''\<rparr>]
   \<and> completed sampleTodo = 0"
  by code_simp

text \<open>
  What the claim says of the other requests holds: marking a todo incomplete, or
  completing a todo without a pattern, writes no todo and removes none.
\<close>

lemma PUT_without_spawn:
  assumes "PUT engine host ts clock session db idParam body = (db', r)"
    and "b_completed body \<noteq> Some 1
         \<or> (\<forall>todoId old. idParam = Some todoId \<longrightarrow> todoDB_findById db todoId = Some old \<longrightarrow>
               completed old \<noteq> 0 \<or> \<not> truthyString (recurrence_pattern old))"
  shows "map ident (todos_table db') = map ident (todos_table db)"
    and "\<forall>payload. r = Success payload \<longrightarrow> resp_next_todo payload = None"
proof -
  have "map ident (todos_table db') = map ident (todos_table db)
      \<and> (\<forall>payload. r = Success payload \<longrightarrow> resp_next_todo payload = None)"
    using assms
    by (auto simp: PUT_def putHandleCompletion_def todoDB_update_def Let_def o_def
        split: option.splits if_splits sum.splits prod.splits)
  then show "map ident (todos_table db') = map ident (todos_table db)"
    and "\<forall>payload. r = Success payload \<longrightarrow> resp_next_todo payload = None"
    by blast+
qed

section \<open>Properties of todo creation\<close>

text \<open>
  C9, as amended. \<open>POST /api/todos\<close> tests \<open>parseInt\<close> of a reminder lead time and
  stores the lead time itself. A lead time whose \<open>parseInt\<close> is zero or negative is
  rejected and the store is left as it was; where the request without a lead time is
  accepted, the answer is status 400 with the message of this check. A todo that the
  handler creates has the lead time of the request, and \<open>parseInt\<close> of it is positive.
  Every lead time whose \<open>parseInt\<close> is positive is accepted where the request without
  a lead time is, and the todo is created with it, whether or not it is one of 15, 30,
  60, 120, 1440, 2880 and 10080, and whether or not it is a whole number. \<open>parseInt\<close>
  is any function that gives 0 for 0, as \<open>parseInt\<close> of JavaScript does.
\<close>

theorem POST_reminder_validation:
  assumes "parseInt 0 = 0"
  shows
   "(p_reminder_minutes body = Some x \<and> parseInt x \<le> 0 \<longrightarrow>
      (\<exists>status message.
         POST parseInt engine host ts clock session db body = (db, Failure status message))
      \<and> (POST parseInt engine host ts clock session db (body\<lparr>p_reminder_minutes := None\<rparr>)
            = (db0, Success t0) \<longrightarrow>
          POST parseInt engine host ts clock session db body
            = (db, Failure 400 ''Reminder minutes must be a positive number'')))
   \<and> (POST parseInt engine host ts clock session db body = (db', Success t) \<longrightarrow>
        reminder_minutes t = p_reminder_minutes body
        \<and> (\<forall>k. p_reminder_minutes body = Some k \<longrightarrow> 0 < parseInt k))
   \<and> (0 < parseInt x \<and>
        POST parseInt engine host ts clock session db (body\<lparr>p_reminder_minutes := None\<rparr>)
          = (db0, Success t0) \<longrightarrow>
        (\<exists>db1. POST parseInt engine host ts clock session db (body\<lparr>p_reminder_minutes := Some x\<rparr>)
           = (db1, Success (t0\<lparr>reminder_minutes := Some x\<rparr>))))"
proof -
  have a1: "\<exists>status message.
      POST parseInt engine host ts clock session db body = (db, Failure status message)"
    if "p_reminder_minutes body = Some x \<and> parseInt x \<le> 0"
    using that by (auto simp: POST_def split: option.splits)
  have a2: "POST parseInt engine host ts clock session db body
            = (db, Failure 400 ''Reminder minutes must be a positive number'')"
    if "p_reminder_minutes body = Some x \<and> parseInt x \<le> 0"
      and "POST parseInt engine host ts clock session db (body\<lparr>p_reminder_minutes := None\<rparr>)
            = (db0, Success t0)"
    using that
    by (auto simp: POST_def Let_def todoDB_create_def split: option.splits if_splits)
  have b: "reminder_minutes t = p_reminder_minutes body
        \<and> (\<forall>k. p_reminder_minutes body = Some k \<longrightarrow> 0 < parseInt k)"
    if "POST parseInt engine host ts clock session db body = (db', Success t)"
    using that assms
    by (auto simp: POST_def Let_def todoDB_create_def orNullNumber_def
        split: option.splits if_splits)
  have c: "\<exists>db1. POST parseInt engine host ts clock session db (body\<lparr>p_reminder_minutes := Some x\<rparr>)
           = (db1, Success (t0\<lparr>reminder_minutes := Some x\<rparr>))"
    if "0 < parseInt x \<and>
        POST parseInt engine host ts clock session db (body\<lparr>p_reminder_minutes := None\<rparr>)
          = (db0, Success t0)"
  proof -
    from that assms have "x \<noteq> 0"
      by auto
    with that show ?thesis
      by (auto simp: POST_def Let_def todoDB_create_def orNullNumber_def
          split: option.splits if_splits)
  qed
  from a1 a2 b c show ?thesis by blast
qed

theorem POST_reminder_validation_witness:
  "parseIntDecimal 0 = 0
   \<and> POST parseIntDecimal noOtherForm 480 ''2026-02-10 05:00:00'' (clockAt 13 0) (Some 1) sampleDB
        \<lparr>p_title = Some (ascii ''Call the bank''), p_due_date = Some ''2026-02-11T10:00'',
         p_priority = None, p_recurrence_pattern = None, p_reminder_minutes = Some (1 / 2)\<rparr>
      = (sampleDB, Failure 400 ''Reminder minutes must be a positive number'')
   \<and> (\<exists>db1 t0.
        POST parseIntDecimal noOtherForm 480 ''2026-02-10 05:00:00'' (clockAt 13 0) (Some 1) sampleDB
          \<lparr>p_title = Some (ascii ''Call the bank''), p_due_date = Some ''2026-02-11T10:00'',
           p_priority = None, p_recurrence_pattern = None, p_reminder_minutes = Some (17 / 10)\<rparr>
        = (db1, Success (t0\<lparr>reminder_minutes := Some (17 / 10)\<rparr>)))"
proof -
  let ?body = "\<lambda>r. \<lparr>p_title = Some (ascii ''Call the bank''), p_due_date = Some ''2026-02-11T10:00'',
         p_priority = None, p_recurrence_pattern = None, p_reminder_minutes = r\<rparr>"
  let ?post = "\<lambda>r. POST parseIntDecimal noOtherForm 480 ''2026-02-10 05:00:00'' (clockAt 13 0)
         (Some 1) sampleDB (?body r)"
  have p0: "parseIntDecimal 0 = 0"
    by (simp add: parseIntDecimal_def)
  have z: "p_reminder_minutes (?body (Some (1 / 2))) = Some (1 / 2) \<and> parseIntDecimal (1 / 2) \<le> 0"
    by (simp add: parseIntDecimal_def)
  have pos: "0 < parseIntDecimal (17 / 10)"
    by (simp add: parseIntDecimal_def)
  have ok: "case snd (?post None) of Success t \<Rightarrow> True | Failure status message \<Rightarrow> False"
    by code_simp
  then obtain t0 where t0: "?post None = (fst (?post None), Success t0)"
    by (cases "snd (?post None)") (auto simp: prod_eq_iff)
  have u: "(?body (Some (1 / 2)))\<lparr>p_reminder_minutes := None\<rparr> = ?body None"
    "(?body (Some (1 / 2)))\<lparr>p_reminder_minutes := Some (17 / 10)\<rparr> = ?body (Some (17 / 10))"
    by simp_all
  have p: "POST parseIntDecimal noOtherForm 480 ''2026-02-10 05:00:00'' (clockAt 13 0) (Some 1) sampleDB
      ((?body (Some (1 / 2)))\<lparr>p_reminder_minutes := None\<rparr>) = (fst (?post None), Success t0)"
    using t0 by (simp only: u)
  show ?thesis
    using POST_reminder_validation
      [of parseIntDecimal "?body (Some (1 / 2))" "1 / 2" noOtherForm 480 "''2026-02-10 05:00:00''"
        "clockAt 13 0" "Some 1" sampleDB "fst (?post None)" t0, OF p0]
      POST_reminder_validation
      [of parseIntDecimal "?body (Some (1 / 2))" "17 / 10" noOtherForm 480 "''2026-02-10 05:00:00''"
        "clockAt 13 0" "Some 1" sampleDB "fst (?post None)" t0, OF p0]
      p0 z pos p
    by (simp only: u) blast
qed

text \<open>
  The claim as stated fails for a lead time of 45 minutes: the request succeeds and the
  todo is stored with it, although 45 is not among the options and
  \<open>validateReminderMinutes\<close>, which no route calls, maps it to \<open>null\<close>.
\<close>

theorem POST_accepts_reminder_outside_options:
  "snd (POST parseIntDecimal noOtherForm 480 ''2026-02-10 05:00:00'' (clockAt 13 0) (Some 1) sampleDB
          \<lparr>p_title = Some (ascii ''Call the bank''), p_due_date = Some ''2026-02-11T10:00'',
           p_priority = None, p_recurrence_pattern = None, p_reminder_minutes = Some 45\<rparr>)
     = Success
         \<lparr>ident = 2, user_id = 1, title = ascii ''Call the bank'', due_date = ''2026-02-11T10:00'',
          priority = Medium, completed = 0, completed_at = None, recurrence_pattern = None,
          reminder_minutes = Some 45, last_notification_sent = None,
          created_at = ''2026-02-10 05:00:00''\<rparr>
   \<and> (45::real) \<notin> set [15, 30, 60, 120, 1440, 2880, 10080]
   \<and> validateReminderMinutes (Some 45) = None"
  by code_simp

text \<open>
  A due date of another form is read by the engine. Where the engine reads
  \<open>2026-02-09\<close> as the beginning of that day in UTC, which is 08:00 in Singapore, the
  handler refuses it on 10 February as a date in the past.
\<close>

lemma POST_past_date_only:
  assumes "engine ''2026-02-09''
             = Some \<lparr>fullYear = 2026, month = 1, date = 9, msOfDay = 28800000\<rparr>"
  shows "POST parseInt engine 480 ''2026-02-10 05:00:00'' (clockAt 13 0) (Some 1) sampleDB
           \<lparr>p_title = Some (ascii ''Call the bank''), p_due_date = Some ''2026-02-09'',
            p_priority = None, p_recurrence_pattern = None, p_reminder_minutes = None\<rparr>
         = (sampleDB, Failure 400 ''Due date cannot be in the past'')"
proof -
  let ?d = "\<lparr>fullYear = 2026, month = 1, date = 9, msOfDay = 28800000\<rparr>"
  have n: "newDate engine ''2026-02-09'' = Some ?d"
    using assms by (simp add: newDate_def parseDate_date_only)
  have t: "trim (ascii ''Call the bank'') = ascii ''Call the bank''"
    by code_simp
  have l: "ascii ''Call the bank'' \<noteq> []" "\<not> 500 < length (ascii ''Call the bank'')"
    by code_simp+
  have p: "getTime 480 (toZonedTime 480 ?d) < getTime 480 (getSingaporeNow 480 (clockAt 13 0))"
    by code_simp
  show ?thesis
    by (simp add: POST_def truthyTitle_def truthyString_def t l isPastDate_def
        parseSingaporeDate_def n p)
qed

end
